theory Spec2Isabelle
  imports Main
begin

section \<open>Common vocabulary\<close>

text \<open>
  The repository holds five stand-alone relay servers. Each is embedded on its own:
  the file-storage server (src/server.js), the better-sqlite3 server (part_000, names
  ending in \<open>_S\<close>), the sqlite3 server (first half of part_001, \<open>_A\<close>), the in-memory
  server (second half of part_001, \<open>_M\<close>) and the express server (part_002, \<open>_E\<close>).
  User and vault identifiers are JSON strings; a socket is named by a number. What a
  handler writes to sockets is returned as the list of (socket, frame) pairs in the
  order of the \<open>send\<close> calls. A \<open>send\<close> returns normally unless a handler takes a
  parameter \<open>ok\<close> that says otherwise. Where a server keeps a table in a plain object
  (\<open>db.vaults\<close>, \<open>db.messages\<close>, \<open>DB.queues\<close>), the keys are taken not to be names of
  properties of \<open>Object.prototype\<close>.
\<close>

type_synonym uid = string
type_synonym vid = string
type_synonym sock = nat

datatype vtype = Private | Public

text \<open>
  A variable that holds \<open>null\<close> or a string is a \<open>string option\<close>; it is falsy when it is
  \<open>None\<close> or the empty string.
\<close>

text \<open>\<open>const sock = connections.get(m); if (sock && sock.readyState === WebSocket.OPEN)\<close>\<close>

definition liveSock :: "(sock \<Rightarrow> bool) \<Rightarrow> (uid \<rightharpoonup> sock) \<Rightarrow> uid \<Rightarrow> sock option" where
  "liveSock isOpen conns m =
     (case conns m of None \<Rightarrow> None | Some s \<Rightarrow> if isOpen s then Some s else None)"

text \<open>\<open>q[u] || []\<close>\<close>

definition queueOf :: "(uid \<rightharpoonup> 'a list) \<Rightarrow> uid \<Rightarrow> 'a list" where
  "queueOf q u = (case q u of None \<Rightarrow> [] | Some l \<Rightarrow> l)"

text \<open>
  \<open>list.forEach(m => ws.send(m))\<close> where a \<open>send\<close> may throw: \<open>ok i\<close> says that the
  \<open>i\<close>-th call returns normally. The result is the frames written and whether the loop
  ran to its end; a throw leaves the loop at once.
\<close>

fun forEachSend :: "(nat \<Rightarrow> bool) \<Rightarrow> nat \<Rightarrow> sock \<Rightarrow> 'o list \<Rightarrow> (sock \<times> 'o) list \<times> bool" where
  "forEachSend ok i ws [] = ([], True)"
| "forEachSend ok i ws (m # ms) =
     (if ok i
      then (case forEachSend ok (Suc i) ws ms of (out, fin) \<Rightarrow> ((ws, m) # out, fin))
      else ([], False))"

section \<open>The file-storage server (src/server.js)\<close>

datatype ftype = SendMessage | SendFileChunk

record fmsg =
  m_type :: ftype
  m_vaultId :: vid
  m_body :: string

record fpacket =
  p_type :: ftype
  p_vaultId :: vid
  p_body :: string
  p_from :: uid
  p_ts :: int

record fvault =
  members :: "uid list"
  vtype :: vtype

text \<open>
  \<open>db\<close> (users, messages, vaults), the \<open>connections\<close> map and, per socket, the closure
  variable \<open>authenticatedUser\<close>. Of a user entry only its presence is kept.
\<close>

record fstate =
  f_users :: "uid set"
  f_messages :: "uid \<rightharpoonup> fpacket list"
  f_vaults :: "vid \<rightharpoonup> fvault"
  f_connections :: "uid \<rightharpoonup> sock"
  f_auth :: "sock \<Rightarrow> uid option"

datatype fout =
    FError string
  | FVaultJoined vid "uid list" bool
  | FMemberJoined vid uid
  | FPacket fpacket
  | FIdentified uid
  | FNuked
  | FPong

definition f_empty :: fstate where
  "f_empty = \<lparr>f_users = {}, f_messages = Map.empty, f_vaults = Map.empty,
              f_connections = Map.empty, f_auth = (\<lambda>_. None)\<rparr>"

text \<open>
  \<open>handleIdentify\<close>: the queue is written to the socket with \<open>forEach\<close> and cleared by the
  statement after the loop. A throwing \<open>send\<close> is caught by the \<open>try\<close> around the
  dispatch, so the statements after it do not run.
\<close>

definition handleIdentify :: "(nat \<Rightarrow> bool) \<Rightarrow> sock \<Rightarrow> uid \<Rightarrow> fstate \<Rightarrow> fstate \<times> (sock \<times> fout) list" where
  "handleIdentify ok ws userHash st =
     (let st1 = st\<lparr>f_auth := (f_auth st)(ws := Some userHash),
                   f_connections := (f_connections st)(userHash \<mapsto> ws),
                   f_users := insert userHash (f_users st)\<rparr>;
          queue = queueOf (f_messages st1) userHash
      in if queue \<noteq> []
         then (case forEachSend ok 0 ws (map FPacket queue) of
                 (out, True) \<Rightarrow>
                   (st1\<lparr>f_messages := (f_messages st1)(userHash \<mapsto> [])\<rparr>,
                    out @ [(ws, FIdentified userHash)])
               | (out, False) \<Rightarrow> (st1, out))
         else (st1, [(ws, FIdentified userHash)]))"

definition handleJoinVault :: "(sock \<Rightarrow> bool) \<Rightarrow> sock \<Rightarrow> vid \<Rightarrow> bool \<Rightarrow> uid option \<Rightarrow> fstate
    \<Rightarrow> fstate \<times> (sock \<times> fout) list" where
  "handleJoinVault isOpen ws vId isPrivate user st =
     (case user of
        None \<Rightarrow> (st, [])
      | Some u \<Rightarrow>
          if u = [] then (st, [])
          else
            let v = (case f_vaults st vId of
                       None \<Rightarrow> \<lparr>members = [], vtype = (if isPrivate then Private else Public)\<rparr>
                     | Some v0 \<Rightarrow> v0);
                st1 = st\<lparr>f_vaults := (f_vaults st)(vId \<mapsto> v)\<rparr>
            in if u \<notin> set (members v) \<and> vtype v = Private \<and> length (members v) \<ge> 2
               then (st1, [(ws, FError ''Private vault full'')])
               else
                 let v' = (if u \<notin> set (members v) then v\<lparr>members := members v @ [u]\<rparr> else v);
                     others = filter (\<lambda>m. m \<noteq> u) (members v')
                 in (st\<lparr>f_vaults := (f_vaults st)(vId \<mapsto> v')\<rparr>,
                     (ws, FVaultJoined vId others (vtype v' = Private))
                     # concat (map (\<lambda>m. case liveSock isOpen (f_connections st) m of
                                          None \<Rightarrow> []
                                        | Some s \<Rightarrow> [(s, FMemberJoined vId u)]) others)))"

text \<open>The body of \<open>members.forEach\<close> in \<open>handleRelay\<close>, on the pair (queues, frames written).\<close>

definition relayTo :: "(sock \<Rightarrow> bool) \<Rightarrow> (uid \<rightharpoonup> sock) \<Rightarrow> fmsg \<Rightarrow> fpacket \<Rightarrow> uid \<Rightarrow> uid
    \<Rightarrow> (uid \<rightharpoonup> fpacket list) \<times> (sock \<times> fout) list
    \<Rightarrow> (uid \<rightharpoonup> fpacket list) \<times> (sock \<times> fout) list" where
  "relayTo isOpen conns msg packet sender m acc =
     (case acc of (q, out) \<Rightarrow>
        if m = sender then (q, out)
        else (case liveSock isOpen conns m of
                Some s \<Rightarrow> (q, out @ [(s, FPacket packet)])
              | None \<Rightarrow>
                  if m_type msg = SendMessage
                  then (q(m \<mapsto> queueOf q m @ [packet]), out)
                  else (q, out)))"

definition handleRelay :: "(sock \<Rightarrow> bool) \<Rightarrow> int \<Rightarrow> sock \<Rightarrow> fmsg \<Rightarrow> uid option \<Rightarrow> fstate
    \<Rightarrow> fstate \<times> (sock \<times> fout) list" where
  "handleRelay isOpen now ws msg sender st =
     (case sender of
        None \<Rightarrow> (st, [])
      | Some u \<Rightarrow>
          if u = [] then (st, [])
          else (case f_vaults st (m_vaultId msg) of
                  None \<Rightarrow> (st, [])
                | Some v \<Rightarrow>
                    let packet = \<lparr>p_type = m_type msg, p_vaultId = m_vaultId msg,
                                  p_body = m_body msg, p_from = u, p_ts = now\<rparr>
                    in (case fold (relayTo isOpen (f_connections st) msg packet u) (members v)
                               (f_messages st, []) of
                          (q, out) \<Rightarrow> (st\<lparr>f_messages := q\<rparr>, out))))"

definition handleLeaveVault :: "vid \<Rightarrow> uid option \<Rightarrow> fstate \<Rightarrow> fstate" where
  "handleLeaveVault vId user st =
     (case user of
        None \<Rightarrow> st
      | Some u \<Rightarrow>
          if u = [] then st
          else (case f_vaults st vId of
                  None \<Rightarrow> st
                | Some v \<Rightarrow>
                    let ms = filter (\<lambda>m. m \<noteq> u) (members v)
                    in if ms = [] then st\<lparr>f_vaults := (f_vaults st)(vId := None)\<rparr>
                       else st\<lparr>f_vaults := (f_vaults st)(vId \<mapsto> v\<lparr>members := ms\<rparr>)\<rparr>))"

definition handleNuke :: "sock \<Rightarrow> uid option \<Rightarrow> fstate \<Rightarrow> fstate \<times> (sock \<times> fout) list" where
  "handleNuke ws user st =
     (case user of
        None \<Rightarrow> (st, [])
      | Some u \<Rightarrow>
          if u = [] then (st, [])
          else (st\<lparr>f_vaults := (\<lambda>vid. map_option
                                   (\<lambda>v. v\<lparr>members := filter (\<lambda>m. m \<noteq> u) (members v)\<rparr>)
                                   (f_vaults st vid)),
                    f_messages := (f_messages st)(u := None),
                    f_users := f_users st - {u},
                    f_connections := (f_connections st)(u := None)\<rparr>,
                [(ws, FNuked)]))"

text \<open>\<open>ws.on('close')\<close>\<close>

definition onClose :: "sock \<Rightarrow> fstate \<Rightarrow> fstate" where
  "onClose ws st =
     (case f_auth st ws of
        None \<Rightarrow> st
      | Some u \<Rightarrow>
          if u = [] then st
          else st\<lparr>f_connections := (f_connections st)(u := None)\<rparr>)"

text \<open>
  \<open>ws.on('message')\<close>: the dispatch on \<open>msg.type\<close>, for the message types that touch vaults,
  queues or the registry (the prekey messages \<open>publish-keys\<close> and \<open>fetch-keys\<close> are left
  out). \<open>now\<close> is \<open>Date.now()\<close> and \<open>ok\<close> the fate of the sends of an identify drain.
\<close>

datatype fevent =
    Identify uid
  | JoinVault vid bool
  | Relay fmsg
  | LeaveVault vid
  | Nuke
  | Ping

fun onMessage :: "(sock \<Rightarrow> bool) \<Rightarrow> (nat \<Rightarrow> bool) \<Rightarrow> int \<Rightarrow> sock \<Rightarrow> fevent \<Rightarrow> fstate
    \<Rightarrow> fstate \<times> (sock \<times> fout) list" where
  "onMessage isOpen ok now ws (Identify userHash) st = handleIdentify ok ws userHash st"
| "onMessage isOpen ok now ws (JoinVault vId isPrivate) st =
     handleJoinVault isOpen ws vId isPrivate (f_auth st ws) st"
| "onMessage isOpen ok now ws (Relay msg) st = handleRelay isOpen now ws msg (f_auth st ws) st"
| "onMessage isOpen ok now ws (LeaveVault vId) st = (handleLeaveVault vId (f_auth st ws) st, [])"
| "onMessage isOpen ok now ws Nuke st = handleNuke ws (f_auth st ws) st"
| "onMessage isOpen ok now ws Ping st = (st, [(ws, FPong)])"

text \<open>
  A run of the server. What happens on a socket is a message, which comes with the state of
  the world when it is handled (which sockets are open, which sends of a drain return, the
  clock), or the close of the socket. The frames written are discarded.
\<close>

datatype fio = Msg "sock \<Rightarrow> bool" "nat \<Rightarrow> bool" int fevent | Closed

fun f_run :: "(sock \<times> fio) list \<Rightarrow> fstate \<Rightarrow> fstate" where
  "f_run [] st = st"
| "f_run ((ws, Msg isOpen ok now ev) # evs) st =
     f_run evs (fst (onMessage isOpen ok now ws ev st))"
| "f_run ((ws, Closed) # evs) st = f_run evs (onClose ws st)"

text \<open>A message handled while every socket is open and every send returns.\<close>

definition msg_at :: "int \<Rightarrow> fevent \<Rightarrow> fio" where
  "msg_at now ev = Msg (\<lambda>_. True) (\<lambda>_. True) now ev"

section \<open>The better-sqlite3 server (part_000)\<close>

text \<open>
  The tables are lists of rows in insertion order. The columns \<open>created_at\<close> and
  \<open>joined_at\<close> and the table \<open>users\<close> are written but never read and are left out.
  \<open>uuidv4()\<close> is an input \<open>newId\<close> of the handler that calls it.
\<close>

type_synonym msgid = string

record srow =
  row_id :: msgid
  row_vault_id :: vid
  row_sender_id :: uid
  row_ts :: int
  row_json :: string
  row_delivered :: bool

record sstate =
  s_vaults :: "(vid \<times> vtype) list"
  s_vault_members :: "(vid \<times> uid) list"
  s_messages :: "srow list"
  s_connections :: "uid \<rightharpoonup> sock"
  s_currentUserId :: "sock \<Rightarrow> uid option"

datatype sout =
    SMessage vid string uid msgid int
  | SIdentifyAck uid
  | SError string
  | SJoinAck vid
  | SLeaveAck vid
  | SSendAck
  | SNuked

definition s_empty :: sstate where
  "s_empty = \<lparr>s_vaults = [], s_vault_members = [], s_messages = [],
              s_connections = Map.empty, s_currentUserId = (\<lambda>_. None)\<rparr>"

definition vaultExists :: "sstate \<Rightarrow> vid \<Rightarrow> bool" where
  "vaultExists st vaultId = (vaultId \<in> set (map fst (s_vaults st)))"

definition getVaultMemberCount :: "sstate \<Rightarrow> vid \<Rightarrow> nat" where
  "getVaultMemberCount st vaultId = length (filter (\<lambda>r. fst r = vaultId) (s_vault_members st))"

definition addVaultIfNotExists :: "vid \<Rightarrow> vtype \<Rightarrow> sstate \<Rightarrow> sstate" where
  "addVaultIfNotExists vaultId t st =
     (if vaultExists st vaultId then st else st\<lparr>s_vaults := s_vaults st @ [(vaultId, t)]\<rparr>)"

text \<open>\<open>INSERT OR IGNORE\<close> under the primary key (vault_id, user_id).\<close>

definition addMemberToVault :: "vid \<Rightarrow> uid \<Rightarrow> sstate \<Rightarrow> sstate" where
  "addMemberToVault vaultId userId st =
     (if (vaultId, userId) \<in> set (s_vault_members st) then st
      else st\<lparr>s_vault_members := s_vault_members st @ [(vaultId, userId)]\<rparr>)"

definition removeMemberFromVault :: "vid \<Rightarrow> uid \<Rightarrow> sstate \<Rightarrow> sstate" where
  "removeMemberFromVault vaultId userId st =
     st\<lparr>s_vault_members := filter (\<lambda>r. r \<noteq> (vaultId, userId)) (s_vault_members st)\<rparr>"

definition getVaultMembers_S :: "sstate \<Rightarrow> vid \<Rightarrow> uid list" where
  "getVaultMembers_S st vaultId = map snd (filter (\<lambda>r. fst r = vaultId) (s_vault_members st))"

definition queueMessage_S :: "msgid \<Rightarrow> vid \<Rightarrow> uid \<Rightarrow> string \<Rightarrow> int \<Rightarrow> sstate \<Rightarrow> sstate" where
  "queueMessage_S newId vaultId senderId blob ts st =
     st\<lparr>s_messages := s_messages st @
          [\<lparr>row_id = newId, row_vault_id = vaultId, row_sender_id = senderId,
            row_ts = ts, row_json = blob, row_delivered = False\<rparr>]\<rparr>"

text \<open>The join of messages with vault_members, filtered and ordered by \<open>ts\<close> ascending.\<close>

definition getUndeliveredMessagesForUser :: "sstate \<Rightarrow> uid \<Rightarrow> srow list" where
  "getUndeliveredMessagesForUser st userId =
     sort_key row_ts
       [m. m \<leftarrow> s_messages st, v \<leftarrow> s_vault_members st,
           row_vault_id m = fst v, snd v = userId, \<not> row_delivered m]"

definition markMessageDelivered :: "msgid \<Rightarrow> sstate \<Rightarrow> sstate" where
  "markMessageDelivered i st =
     st\<lparr>s_messages := map (\<lambda>m. if row_id m = i then m\<lparr>row_delivered := True\<rparr> else m)
                           (s_messages st)\<rparr>"

text \<open>The body of the \<open>for\<close> loop of \<open>deliverMessageToVaultMembers\<close>.\<close>

definition deliverTo_S :: "(sock \<Rightarrow> bool) \<Rightarrow> uid \<Rightarrow> sout \<Rightarrow> msgid \<Rightarrow> uid
    \<Rightarrow> sstate \<times> (sock \<times> sout) list \<Rightarrow> sstate \<times> (sock \<times> sout) list" where
  "deliverTo_S isOpen senderId frame msgId m acc =
     (case acc of (st, out) \<Rightarrow>
        if m = senderId then (st, out)
        else (case liveSock isOpen (s_connections st) m of
                Some s \<Rightarrow> (markMessageDelivered msgId st, out @ [(s, frame)])
              | None \<Rightarrow> (st, out)))"

definition deliverMessageToVaultMembers_S :: "(sock \<Rightarrow> bool) \<Rightarrow> msgid \<Rightarrow> uid \<Rightarrow> vid \<Rightarrow> string \<Rightarrow> int
    \<Rightarrow> sstate \<Rightarrow> sstate \<times> (sock \<times> sout) list" where
  "deliverMessageToVaultMembers_S isOpen newId senderId vaultId blob ts st =
     (let members = getVaultMembers_S st vaultId;
          st1 = queueMessage_S newId vaultId senderId blob ts st
      in fold (deliverTo_S isOpen senderId (SMessage vaultId blob senderId newId ts) newId)
              members (st1, []))"

definition on_identify_S :: "sock \<Rightarrow> uid \<Rightarrow> sstate \<Rightarrow> sstate \<times> (sock \<times> sout) list" where
  "on_identify_S ws userHash st =
     (let st1 = st\<lparr>s_currentUserId := (s_currentUserId st)(ws := Some userHash),
                   s_connections := (s_connections st)(userHash \<mapsto> ws)\<rparr>;
          undelivered = getUndeliveredMessagesForUser st1 userHash
      in (case fold (\<lambda>m acc. case acc of (s, out) \<Rightarrow>
                       (markMessageDelivered (row_id m) s,
                        out @ [(ws, SMessage (row_vault_id m) (row_json m) (row_sender_id m)
                                      (row_id m) (row_ts m))]))
                    undelivered (st1, []) of
            (st2, out) \<Rightarrow> (st2, out @ [(ws, SIdentifyAck userHash)])))"

definition on_join_vault_S :: "sock \<Rightarrow> vid \<Rightarrow> bool \<Rightarrow> uid \<Rightarrow> sstate \<Rightarrow> sstate \<times> (sock \<times> sout) list" where
  "on_join_vault_S ws vaultId isPrivate userHash st =
     (let t = (if isPrivate then Private else Public);
          st1 = addVaultIfNotExists vaultId t st
      in if t = Private \<and> getVaultMemberCount st1 vaultId \<ge> 2
         then (st1, [(ws, SError ''Private vault already has 2 members.'')])
         else (addMemberToVault vaultId userHash st1, [(ws, SJoinAck vaultId)]))"

definition on_leave_vault_S :: "sock \<Rightarrow> vid \<Rightarrow> uid \<Rightarrow> sstate \<Rightarrow> sstate \<times> (sock \<times> sout) list" where
  "on_leave_vault_S ws vaultId userHash st =
     (removeMemberFromVault vaultId userHash st, [(ws, SLeaveAck vaultId)])"

text \<open>
  \<open>case "send"\<close>. The insert of \<open>queueMessage\<close> throws when the id is already a primary
  key; nothing has been written then and no frame is sent.
\<close>

definition on_send_S :: "(sock \<Rightarrow> bool) \<Rightarrow> msgid \<Rightarrow> sock \<Rightarrow> vid \<Rightarrow> string \<Rightarrow> uid \<Rightarrow> int
    \<Rightarrow> sstate \<Rightarrow> sstate \<times> (sock \<times> sout) list" where
  "on_send_S isOpen newId ws vaultId blob from ts st =
     (if newId \<in> set (map row_id (s_messages st)) then (st, [])
      else (case deliverMessageToVaultMembers_S isOpen newId from vaultId blob ts st of
              (st1, out) \<Rightarrow> (st1, out @ [(ws, SSendAck)])))"

text \<open>
  \<open>case "nuke"\<close>: the \<open>DELETE\<close> on vault_members runs. The statement that follows,
  \<open>UPDATE messages m SET ...\<close>, gives the table an alias without \<open>AS\<close>, which SQLite does
  not parse: \<open>db.prepare\<close> throws, no row of messages is changed, the \<open>nuked\<close> frame is
  not written, and the exception leaves the handler, which has no \<open>try\<close>.
\<close>

definition on_nuke_S :: "sock \<Rightarrow> uid \<Rightarrow> sstate \<Rightarrow> sstate \<times> (sock \<times> sout) list" where
  "on_nuke_S ws userId st =
     (st\<lparr>s_vault_members := filter (\<lambda>r. snd r \<noteq> userId) (s_vault_members st)\<rparr>, [])"

section \<open>The sqlite3 server (part_001, first program)\<close>

text \<open>
  The table \<open>vaultMembers\<close> has no key, so it is a list that may repeat a row. A JavaScript
  \<open>Set\<close> is a list without repetition in insertion order. The handlers are \<open>async\<close>; each
  is embedded as one uninterrupted step. \<open>uuidv4()\<close>, taken to be fresh, and \<open>Date.now()\<close>
  are inputs.
\<close>

record arow =
  a_id :: msgid
  a_vaultId :: vid
  a_fromUser :: uid
  a_messageBlob :: string
  a_timestamp :: int

record astate =
  a_messages :: "arow list"
  a_vaultMembers :: "(vid \<times> uid) list"
  a_clients :: "uid \<rightharpoonup> sock"
  a_liveVaultMap :: "vid \<rightharpoonup> uid list"
  a_userId :: "sock \<Rightarrow> uid option"

datatype aout =
    AMessage vid uid string int
  | AIdentifyAck
  | AJoinAck vid
  | ASendAck "string option"
  | APong

definition a_empty :: astate where
  "a_empty = \<lparr>a_messages = [], a_vaultMembers = [], a_clients = Map.empty,
              a_liveVaultMap = Map.empty, a_userId = (\<lambda>_. None)\<rparr>"

text \<open>\<open>Set.prototype.add\<close>\<close>

definition setAdd :: "'a \<Rightarrow> 'a list \<Rightarrow> 'a list" where
  "setAdd x s = (if x \<in> set s then s else s @ [x])"

definition addToLiveVault :: "vid \<Rightarrow> uid \<Rightarrow> astate \<Rightarrow> astate" where
  "addToLiveVault vaultId userId st =
     st\<lparr>a_liveVaultMap := (a_liveVaultMap st)(vaultId \<mapsto> setAdd userId (queueOf (a_liveVaultMap st) vaultId))\<rparr>"

definition removeFromLiveVault :: "uid \<Rightarrow> astate \<Rightarrow> astate" where
  "removeFromLiveVault userId st =
     st\<lparr>a_liveVaultMap := (\<lambda>v. map_option (filter (\<lambda>x. x \<noteq> userId)) (a_liveVaultMap st v))\<rparr>"

definition sendToUser_A :: "(sock \<Rightarrow> bool) \<Rightarrow> astate \<Rightarrow> uid \<Rightarrow> aout \<Rightarrow> (sock \<times> aout) list" where
  "sendToUser_A isOpen st userId packet =
     (case liveSock isOpen (a_clients st) userId of None \<Rightarrow> [] | Some s \<Rightarrow> [(s, packet)])"

definition broadcastToVault_A :: "(sock \<Rightarrow> bool) \<Rightarrow> astate \<Rightarrow> vid \<Rightarrow> aout \<Rightarrow> uid \<Rightarrow> (sock \<times> aout) list" where
  "broadcastToVault_A isOpen st vaultId packet exceptUser =
     (case a_liveVaultMap st vaultId of
        None \<Rightarrow> []
      | Some ms \<Rightarrow> concat (map (\<lambda>u. if u = exceptUser then [] else sendToUser_A isOpen st u packet) ms))"

definition storeMessage_A :: "msgid \<Rightarrow> int \<Rightarrow> vid \<Rightarrow> uid \<Rightarrow> string \<Rightarrow> astate \<Rightarrow> astate" where
  "storeMessage_A newId now vaultId fromUser messageBlob st =
     st\<lparr>a_messages := a_messages st @
          [\<lparr>a_id = newId, a_vaultId = vaultId, a_fromUser = fromUser,
            a_messageBlob = messageBlob, a_timestamp = now\<rparr>]\<rparr>"

definition deliverOfflineMessages_A :: "(sock \<Rightarrow> bool) \<Rightarrow> astate \<Rightarrow> uid \<Rightarrow> vid list \<Rightarrow> (sock \<times> aout) list" where
  "deliverOfflineMessages_A isOpen st userId userVaults =
     concat (map (\<lambda>row. sendToUser_A isOpen st userId
                          (AMessage (a_vaultId row) (a_fromUser row) (a_messageBlob row) (a_timestamp row)))
                 (sort_key a_timestamp (filter (\<lambda>m. a_vaultId m \<in> set userVaults) (a_messages st))))"

definition on_identify_A :: "(sock \<Rightarrow> bool) \<Rightarrow> sock \<Rightarrow> uid \<Rightarrow> vid list \<Rightarrow> astate \<Rightarrow> astate \<times> (sock \<times> aout) list" where
  "on_identify_A isOpen ws userHash vaults st =
     (let st1 = st\<lparr>a_userId := (a_userId st)(ws := Some userHash),
                   a_clients := (a_clients st)(userHash \<mapsto> ws)\<rparr>;
          st2 = fold (\<lambda>v s. (addToLiveVault v userHash s)
                              \<lparr>a_vaultMembers := a_vaultMembers s @ [(v, userHash)]\<rparr>) vaults st1
      in (st2, deliverOfflineMessages_A isOpen st2 userHash vaults
               @ sendToUser_A isOpen st2 userHash AIdentifyAck))"

definition on_join_vault_A :: "(sock \<Rightarrow> bool) \<Rightarrow> sock \<Rightarrow> vid \<Rightarrow> astate \<Rightarrow> astate \<times> (sock \<times> aout) list" where
  "on_join_vault_A isOpen ws vaultId st =
     (case a_userId st ws of
        None \<Rightarrow> (st, [])
      | Some u \<Rightarrow>
          if u = [] then (st, [])
          else (let st1 = (addToLiveVault vaultId u st)
                            \<lparr>a_vaultMembers := a_vaultMembers st @ [(vaultId, u)]\<rparr>
                in (st1, sendToUser_A isOpen st1 u (AJoinAck vaultId))))"

definition on_send_A :: "(sock \<Rightarrow> bool) \<Rightarrow> msgid \<Rightarrow> int \<Rightarrow> sock \<Rightarrow> vid \<Rightarrow> uid \<Rightarrow> string \<Rightarrow> int
    \<Rightarrow> string option \<Rightarrow> astate \<Rightarrow> astate \<times> (sock \<times> aout) list" where
  "on_send_A isOpen newId now ws vaultId from blob ts clientId st =
     (case a_userId st ws of
        None \<Rightarrow> (st, [])
      | Some u \<Rightarrow>
          if u = [] then (st, [])
          else (let st1 = storeMessage_A newId now vaultId from blob st
                in (st1, broadcastToVault_A isOpen st1 vaultId (AMessage vaultId from blob ts) from
                         @ sendToUser_A isOpen st1 from (ASendAck clientId))))"

definition on_nuke_A :: "sock \<Rightarrow> astate \<Rightarrow> astate" where
  "on_nuke_A ws st =
     (case a_userId st ws of
        None \<Rightarrow> st
      | Some u \<Rightarrow>
          if u = [] then st
          else st\<lparr>a_messages := filter (\<lambda>m. a_fromUser m \<noteq> u) (a_messages st)\<rparr>)"

definition onClose_A :: "sock \<Rightarrow> astate \<Rightarrow> astate" where
  "onClose_A ws st =
     (case a_userId st ws of
        None \<Rightarrow> st
      | Some u \<Rightarrow>
          if u = [] then st
          else removeFromLiveVault u (st\<lparr>a_clients := (a_clients st)(u := None)\<rparr>))"

section \<open>The in-memory server (part_001, second program)\<close>

text \<open>
  \<open>messageQueue\<close>, \<open>connections\<close> and \<open>vaultMembers\<close> are the three global maps;
  \<open>currentUserId\<close> and \<open>userVaults\<close> are closure variables of a socket.
  \<open>generateMessageId()\<close> and \<open>Date.now()\<close> are inputs. The message handler has no
  \<open>try\<close>: a throwing \<open>send\<close> ends the handler where it stands.
\<close>

record qmsg =
  q_vaultId :: vid
  q_blob :: string
  q_from :: uid
  q_id :: msgid
  q_ts :: int

record mstate =
  messageQueue :: "uid \<rightharpoonup> qmsg list"
  m_connections :: "uid \<rightharpoonup> sock"
  vaultMembers :: "vid \<rightharpoonup> uid list"
  m_currentUserId :: "sock \<Rightarrow> uid option"
  m_userVaults :: "sock \<Rightarrow> vid list"

datatype mout =
    MMessage qmsg
  | MIdentifyAck uid
  | MJoinAck vid
  | MSendAck msgid bool
  | MNuked
  | MLeaveAck vid

definition m_empty :: mstate where
  "m_empty = \<lparr>messageQueue = Map.empty, m_connections = Map.empty, vaultMembers = Map.empty,
              m_currentUserId = (\<lambda>_. None), m_userVaults = (\<lambda>_. [])\<rparr>"

definition addToQueue :: "uid \<Rightarrow> qmsg \<Rightarrow> mstate \<Rightarrow> mstate" where
  "addToQueue userId messageData st =
     st\<lparr>messageQueue := (messageQueue st)(userId \<mapsto> queueOf (messageQueue st) userId @ [messageData])\<rparr>"

definition getAndClearQueue :: "uid \<Rightarrow> mstate \<Rightarrow> qmsg list \<times> mstate" where
  "getAndClearQueue userId st =
     (queueOf (messageQueue st) userId, st\<lparr>messageQueue := (messageQueue st)(userId := None)\<rparr>)"

definition addVaultMember :: "vid \<Rightarrow> uid \<Rightarrow> mstate \<Rightarrow> mstate" where
  "addVaultMember vaultId userId st =
     st\<lparr>vaultMembers := (vaultMembers st)(vaultId \<mapsto> setAdd userId (queueOf (vaultMembers st) vaultId))\<rparr>"

definition removeVaultMember :: "vid \<Rightarrow> uid \<Rightarrow> mstate \<Rightarrow> mstate" where
  "removeVaultMember vaultId userId st =
     (case vaultMembers st vaultId of
        None \<Rightarrow> st
      | Some ms \<Rightarrow>
          let ms' = filter (\<lambda>x. x \<noteq> userId) ms
          in if ms' = [] then st\<lparr>vaultMembers := (vaultMembers st)(vaultId := None)\<rparr>
             else st\<lparr>vaultMembers := (vaultMembers st)(vaultId \<mapsto> ms')\<rparr>)"

definition getVaultMembers_M :: "mstate \<Rightarrow> vid \<Rightarrow> uid list" where
  "getVaultMembers_M st vaultId = queueOf (vaultMembers st) vaultId"

definition on_identify_M :: "(nat \<Rightarrow> bool) \<Rightarrow> sock \<Rightarrow> uid \<Rightarrow> vid list \<Rightarrow> mstate \<Rightarrow> mstate \<times> (sock \<times> mout) list" where
  "on_identify_M ok ws userHash vaults st =
     (let st1 = st\<lparr>m_currentUserId := (m_currentUserId st)(ws := Some userHash),
                   m_connections := (m_connections st)(userHash \<mapsto> ws)\<rparr>;
          st2 = fold (\<lambda>vaultId s. addVaultMember vaultId userHash
                          (s\<lparr>m_userVaults := (m_userVaults s)(ws := setAdd vaultId (m_userVaults s ws))\<rparr>))
                     vaults st1
      in (case getAndClearQueue userHash st2 of
            (queued, st3) \<Rightarrow>
              (case forEachSend ok 0 ws (map MMessage queued) of
                 (out, True) \<Rightarrow> (st3, out @ [(ws, MIdentifyAck userHash)])
               | (out, False) \<Rightarrow> (st3, out))))"

definition on_join_vault_M :: "sock \<Rightarrow> vid \<Rightarrow> mstate \<Rightarrow> mstate \<times> (sock \<times> mout) list" where
  "on_join_vault_M ws joinVaultId st =
     (case m_currentUserId st ws of
        None \<Rightarrow> (st, [])
      | Some u \<Rightarrow>
          if u = [] then (st, [])
          else (addVaultMember joinVaultId u
                  (st\<lparr>m_userVaults := (m_userVaults st)(ws := setAdd joinVaultId (m_userVaults st ws))\<rparr>),
                [(ws, MJoinAck joinVaultId)]))"

text \<open>The body of \<open>members.forEach\<close> in \<open>case 'send'\<close>, on (state, frames, \<open>delivered\<close>).\<close>

definition sendTo_M :: "(sock \<Rightarrow> bool) \<Rightarrow> uid \<Rightarrow> qmsg \<Rightarrow> uid
    \<Rightarrow> mstate \<times> (sock \<times> mout) list \<times> bool \<Rightarrow> mstate \<times> (sock \<times> mout) list \<times> bool" where
  "sendTo_M isOpen currentUserId messageData memberId acc =
     (case acc of (st, out, delivered) \<Rightarrow>
        if memberId = currentUserId then (st, out, delivered)
        else (case liveSock isOpen (m_connections st) memberId of
                Some s \<Rightarrow> (st, out @ [(s, MMessage messageData)], True)
              | None \<Rightarrow> (addToQueue memberId messageData st, out, delivered)))"

text \<open>\<open>msg.from || currentUserId\<close> and \<open>msg.ts || Date.now()\<close>\<close>

definition orElse_str :: "string option \<Rightarrow> string \<Rightarrow> string" where
  "orElse_str a b = (case a of None \<Rightarrow> b | Some s \<Rightarrow> if s = [] then b else s)"

definition orElse_int :: "int option \<Rightarrow> int \<Rightarrow> int" where
  "orElse_int a b = (case a of None \<Rightarrow> b | Some t \<Rightarrow> if t = 0 then b else t)"

definition on_send_M :: "(sock \<Rightarrow> bool) \<Rightarrow> msgid \<Rightarrow> int \<Rightarrow> sock \<Rightarrow> vid \<Rightarrow> string \<Rightarrow> uid option
    \<Rightarrow> int option \<Rightarrow> mstate \<Rightarrow> mstate \<times> (sock \<times> mout) list" where
  "on_send_M isOpen msgId now ws vaultId blob msgFrom msgTs st =
     (case m_currentUserId st ws of
        None \<Rightarrow> (st, [])
      | Some u \<Rightarrow>
          if u = [] then (st, [])
          else (let messageData = \<lparr>q_vaultId = vaultId, q_blob = blob,
                                    q_from = orElse_str msgFrom u, q_id = msgId,
                                    q_ts = orElse_int msgTs now\<rparr>
                in (case fold (sendTo_M isOpen u messageData) (getVaultMembers_M st vaultId)
                              (st, [], False) of
                      (st1, out, delivered) \<Rightarrow>
                        (st1, out @ [(ws, MSendAck msgId delivered)]))))"

definition on_nuke_M :: "sock \<Rightarrow> mstate \<Rightarrow> mstate \<times> (sock \<times> mout) list" where
  "on_nuke_M ws st =
     (case m_currentUserId st ws of
        None \<Rightarrow> (st, [])
      | Some u \<Rightarrow>
          if u = [] then (st, [])
          else (let st1 = st\<lparr>messageQueue := (messageQueue st)(u := None)\<rparr>;
                    st2 = fold (\<lambda>vId s. removeVaultMember vId u s) (m_userVaults st ws) st1
                in (st2\<lparr>m_connections := (m_connections st2)(u := None),
                        m_currentUserId := (m_currentUserId st2)(ws := None),
                        m_userVaults := (m_userVaults st2)(ws := [])\<rparr>,
                    [(ws, MNuked)])))"

definition on_leave_vault_M :: "sock \<Rightarrow> vid \<Rightarrow> mstate \<Rightarrow> mstate \<times> (sock \<times> mout) list" where
  "on_leave_vault_M ws leaveVaultId st =
     (case m_currentUserId st ws of
        None \<Rightarrow> (st, [])
      | Some u \<Rightarrow>
          if u = [] then (st, [])
          else (removeVaultMember leaveVaultId u
                  (st\<lparr>m_userVaults := (m_userVaults st)
                        (ws := filter (\<lambda>x. x \<noteq> leaveVaultId) (m_userVaults st ws))\<rparr>),
                [(ws, MLeaveAck leaveVaultId)]))"

definition onClose_M :: "sock \<Rightarrow> mstate \<Rightarrow> mstate" where
  "onClose_M ws st =
     (case m_currentUserId st ws of
        None \<Rightarrow> st
      | Some u \<Rightarrow>
          if u = [] then st
          else st\<lparr>m_connections := (m_connections st)(u := None)\<rparr>)"

section \<open>The express server (part_002)\<close>

text \<open>
  \<open>DB.vaults\<close>, \<open>DB.queues\<close> and the \<open>connections\<close> map; \<open>userId\<close> is the closure variable of
  a socket. A \<open>send\<close> message is kept as its routing fields and an opaque rest; the
  envelope is the message with a \<open>target\<close>. The handshake and file-chunk relays and the
  prekey endpoints are left out. A missing field of a message is the empty string.
\<close>

record evault =
  creator :: uid
  e_members :: "uid list"

record emsg =
  e_vaultId :: vid
  e_from :: uid
  e_rest :: string

record estate =
  e_vaults :: "vid \<rightharpoonup> evault"
  e_queues :: "uid \<rightharpoonup> (emsg \<times> uid) list"
  e_connections :: "uid \<rightharpoonup> sock"
  e_userId :: "sock \<Rightarrow> uid option"

datatype eout =
    EEnvelope emsg uid
  | EIdentifyAck uid
  | EJoinAck vid
  | EVaultJoinRequest vid uid
  | ESendAckUnknownVault
  | ESendAck bool
  | ENuked
  | ELeaveAck vid

definition e_empty :: estate where
  "e_empty = \<lparr>e_vaults = Map.empty, e_queues = Map.empty, e_connections = Map.empty,
              e_userId = (\<lambda>_. None)\<rparr>"

definition queueMessage_E :: "uid \<Rightarrow> emsg \<times> uid \<Rightarrow> estate \<Rightarrow> estate" where
  "queueMessage_E userId m st =
     st\<lparr>e_queues := (e_queues st)(userId \<mapsto> queueOf (e_queues st) userId @ [m])\<rparr>"

text \<open>
  \<open>deliverQueued\<close>: every \<open>send\<close> sits in its own \<open>try\<close>, so a throw (\<open>ok i\<close> false for the
  \<open>i\<close>-th queued message) is logged and the loop goes on; the queue is emptied after it.
\<close>

definition deliverQueued :: "(nat \<Rightarrow> bool) \<Rightarrow> uid \<Rightarrow> estate \<Rightarrow> estate \<times> (sock \<times> eout) list" where
  "deliverQueued ok userId st =
     (case e_connections st userId of
        None \<Rightarrow> (st, [])
      | Some ws \<Rightarrow>
          (st\<lparr>e_queues := (e_queues st)(userId \<mapsto> [])\<rparr>,
           map (\<lambda>p. (ws, EEnvelope (fst (snd p)) (snd (snd p))))
               (filter (\<lambda>p. ok (fst p)) (enumerate 0 (queueOf (e_queues st) userId)))))"

definition ensureVault_E :: "vid \<Rightarrow> uid \<Rightarrow> estate \<Rightarrow> evault" where
  "ensureVault_E vId userId st =
     (case e_vaults st vId of None \<Rightarrow> \<lparr>creator = userId, e_members = []\<rparr> | Some v \<Rightarrow> v)"

definition on_identify_E :: "(nat \<Rightarrow> bool) \<Rightarrow> sock \<Rightarrow> uid \<Rightarrow> vid list \<Rightarrow> estate \<Rightarrow> estate \<times> (sock \<times> eout) list" where
  "on_identify_E ok ws msgUserId vaults st =
     (if msgUserId = [] then (st, [])
      else
        let st1 = st\<lparr>e_userId := (e_userId st)(ws := Some msgUserId),
                     e_connections := (e_connections st)(msgUserId \<mapsto> ws)\<rparr>;
            st2 = fold (\<lambda>vId s. let v = ensureVault_E vId msgUserId s
                                 in s\<lparr>e_vaults := (e_vaults s)
                                        (vId \<mapsto> v\<lparr>e_members := setAdd msgUserId (e_members v)\<rparr>)\<rparr>)
                       vaults st1
        in (case deliverQueued ok msgUserId st2 of
              (st3, out) \<Rightarrow> (st3, out @ [(ws, EIdentifyAck msgUserId)])))"

definition on_join_vault_E :: "sock \<Rightarrow> vid \<Rightarrow> uid \<Rightarrow> estate \<Rightarrow> estate \<times> (sock \<times> eout) list" where
  "on_join_vault_E ws vaultId msgUserId st =
     (if vaultId = [] \<or> msgUserId = [] then (st, [])
      else
        let v = ensureVault_E vaultId msgUserId st;
            st1 = st\<lparr>e_vaults := (e_vaults st)
                       (vaultId \<mapsto> v\<lparr>e_members := setAdd msgUserId (e_members v)\<rparr>)\<rparr>
        in (st1,
            (if creator v \<noteq> []
             then (case e_connections st1 (creator v) of
                     None \<Rightarrow> []
                   | Some s \<Rightarrow> [(s, EVaultJoinRequest vaultId msgUserId)])
             else [])
            @ [(ws, EJoinAck vaultId)]))"

text \<open>
  The body of the \<open>for\<close> loop of \<open>case 'send'\<close>, on (state, frames, \<open>delivered\<close>); \<open>ok i\<close> is
  the fate of the \<open>send\<close> tried for the \<open>i\<close>-th member.
\<close>

definition sendTo_E :: "(nat \<Rightarrow> bool) \<Rightarrow> emsg \<Rightarrow> nat \<times> uid
    \<Rightarrow> estate \<times> (sock \<times> eout) list \<times> bool \<Rightarrow> estate \<times> (sock \<times> eout) list \<times> bool" where
  "sendTo_E ok msg im acc =
     (case acc of (st, out, delivered) \<Rightarrow>
        (case im of (i, member) \<Rightarrow>
           if member = e_from msg then (st, out, delivered)
           else (case e_connections st member of
                   Some s \<Rightarrow>
                     if ok i then (st, out @ [(s, EEnvelope msg member)], True)
                     else (queueMessage_E member (msg, member) st, out, delivered)
                 | None \<Rightarrow> (queueMessage_E member (msg, member) st, out, delivered))))"

definition on_send_E :: "(nat \<Rightarrow> bool) \<Rightarrow> sock \<Rightarrow> emsg \<Rightarrow> estate \<Rightarrow> estate \<times> (sock \<times> eout) list" where
  "on_send_E ok ws msg st =
     (if e_vaultId msg = [] \<or> e_from msg = [] then (st, [])
      else (case e_vaults st (e_vaultId msg) of
              None \<Rightarrow> (st, [(ws, ESendAckUnknownVault)])
            | Some v \<Rightarrow>
                (case fold (sendTo_E ok msg) (enumerate 0 (e_members v)) (st, [], False) of
                   (st1, out, delivered) \<Rightarrow> (st1, out @ [(ws, ESendAck delivered)]))))"

definition on_nuke_E :: "sock \<Rightarrow> uid \<Rightarrow> estate \<Rightarrow> estate \<times> (sock \<times> eout) list" where
  "on_nuke_E ws msgUserId st =
     (if msgUserId = [] then (st, [])
      else (st\<lparr>e_queues := (e_queues st)(msgUserId := None),
               e_vaults := (\<lambda>vId. map_option
                              (\<lambda>v. v\<lparr>e_members := filter (\<lambda>x. x \<noteq> msgUserId) (e_members v)\<rparr>)
                              (e_vaults st vId))\<rparr>,
            [(ws, ENuked)]))"

definition onClose_E :: "sock \<Rightarrow> estate \<Rightarrow> estate" where
  "onClose_E ws st =
     (case e_userId st ws of
        None \<Rightarrow> st
      | Some u \<Rightarrow>
          if u = [] then st
          else st\<lparr>e_connections := (e_connections st)(u := None)\<rparr>)"

section \<open>Invariants and example runs\<close>

text \<open>The cap of the file-storage server: a vault stored as private has at most two members.\<close>

definition f_cap :: "fstate \<Rightarrow> bool" where
  "f_cap st = (\<forall>vId v. f_vaults st vId = Some v \<longrightarrow> vtype v = Private \<longrightarrow> length (members v) \<le> 2)"

text \<open>
  Users A and B have joined the private vault V; C has identified on socket 3. The same
  two joins on the better-sqlite3 server and on the in-memory server.
\<close>

definition f_joined :: fstate where
  "f_joined = f_run
     [(1, msg_at 1 (Identify ''A'')), (1, msg_at 2 (JoinVault ''V'' True)),
      (2, msg_at 3 (Identify ''B'')), (2, msg_at 4 (JoinVault ''V'' True)),
      (3, msg_at 5 (Identify ''C''))] f_empty"

definition s_joined :: sstate where
  "s_joined = fst (on_join_vault_S 2 ''V'' True ''B''
                (fst (on_join_vault_S 1 ''V'' True ''A'' s_empty)))"

definition m_joined :: mstate where
  "m_joined = fst (on_identify_M (\<lambda>_. True) 3 ''C'' []
     (fst (on_join_vault_M 2 ''V'' (fst (on_identify_M (\<lambda>_. True) 2 ''B'' []
       (fst (on_join_vault_M 1 ''V'' (fst (on_identify_M (\<lambda>_. True) 1 ''A'' [] m_empty)))))))))"

text \<open>A file chunk for vault V.\<close>

definition chunk :: fmsg where
  "chunk = \<lparr>m_type = SendFileChunk, m_vaultId = ''V'', m_body = ''c0''\<rparr>"

text \<open>
  B's socket has closed and A has relayed two text messages to V: both wait in B's queue
  (file-storage server). On the in-memory server A has sent two messages whose
  client-supplied timestamps are 20 and 10, in that order.
\<close>

definition text1 :: fmsg where
  "text1 = \<lparr>m_type = SendMessage, m_vaultId = ''V'', m_body = ''ct1''\<rparr>"

definition text2 :: fmsg where
  "text2 = \<lparr>m_type = SendMessage, m_vaultId = ''V'', m_body = ''ct2''\<rparr>"

definition f_queued :: fstate where
  "f_queued = f_run [(2, Closed), (1, msg_at 6 (Relay text1)), (1, msg_at 7 (Relay text2))]
                f_joined"

definition pk1 :: fpacket where
  "pk1 = \<lparr>p_type = SendMessage, p_vaultId = ''V'', p_body = ''ct1'', p_from = ''A'', p_ts = 6\<rparr>"

definition pk2 :: fpacket where
  "pk2 = \<lparr>p_type = SendMessage, p_vaultId = ''V'', p_body = ''ct2'', p_from = ''A'', p_ts = 7\<rparr>"

definition mq1 :: qmsg where
  "mq1 = \<lparr>q_vaultId = ''V'', q_blob = ''ct1'', q_from = ''A'', q_id = ''id1'', q_ts = 20\<rparr>"

definition mq2 :: qmsg where
  "mq2 = \<lparr>q_vaultId = ''V'', q_blob = ''ct2'', q_from = ''A'', q_id = ''id2'', q_ts = 10\<rparr>"

definition m_queued :: mstate where
  "m_queued = fst (on_send_M (\<lambda>_. True) ''id2'' 99 1 ''V'' ''ct2'' (Some ''A'') (Some 10)
               (fst (on_send_M (\<lambda>_. True) ''id1'' 98 1 ''V'' ''ct1'' (Some ''A'') (Some 20)
                 (onClose_M 2 m_joined))))"

text \<open>
  B comes back on socket 4 while two envelopes wait, and the first forward throws: B is
  identified and the queue is still there.
\<close>

definition f_back :: fstate where
  "f_back = fst (handleIdentify (\<lambda>_. False) 4 ''B'' f_queued)"

text \<open>
  The sqlite3 server: U and A identify with vault V, A sends one message, U nukes.
\<close>

definition a_nuked :: astate where
  "a_nuked = on_nuke_A 1
     (fst (on_send_A (\<lambda>_. True) ''id1'' 10 2 ''V'' ''A'' ''ct1'' 9 None
       (fst (on_identify_A (\<lambda>_. True) 2 ''A'' [''V'']
         (fst (on_identify_A (\<lambda>_. True) 1 ''U'' [''V''] a_empty))))))"

text \<open>The same run of the sqlite3 server before the nuke.\<close>

definition a_sent :: astate where
  "a_sent = fst (on_send_A (\<lambda>_. True) ''id1'' 10 2 ''V'' ''A'' ''ct1'' 9 None
       (fst (on_identify_A (\<lambda>_. True) 2 ''A'' [''V'']
         (fst (on_identify_A (\<lambda>_. True) 1 ''U'' [''V''] a_empty)))))"

text \<open>
  The better-sqlite3 server: nobody is connected, A sends to V with timestamp 20 and
  then with timestamp 10.
\<close>

definition s_sent :: sstate where
  "s_sent = fst (on_send_S (\<lambda>_. True) ''id2'' 1 ''V'' ''ct2'' ''A'' 10
              (fst (on_send_S (\<lambda>_. True) ''id1'' 1 ''V'' ''ct1'' ''A'' 20 s_joined)))"

text \<open>A text message and a send for a vault nobody has created.\<close>

definition text_nope :: fmsg where
  "text_nope = \<lparr>m_type = SendMessage, m_vaultId = ''nope'', m_body = ''ct''\<rparr>"

definition send_nope :: emsg where
  "send_nope = \<lparr>e_vaultId = ''nope'', e_from = ''A'', e_rest = ''ct''\<rparr>"

text \<open>
  The better-sqlite3 server: A, B and C are members of the public vault V and B alone is
  connected. The sqlite3 server: U has identified on socket 1.
\<close>

definition s_group :: sstate where
  "s_group = fst (on_identify_S 2 ''B''
     (fst (on_join_vault_S 3 ''V'' False ''C''
       (fst (on_join_vault_S 2 ''V'' False ''B''
         (fst (on_join_vault_S 1 ''V'' False ''A'' s_empty)))))))"

definition a_identified :: astate where
  "a_identified = fst (on_identify_A (\<lambda>_. True) 1 ''U'' [] a_empty)"

text \<open>The file-storage server after A has identified on socket 1 and again on socket 2.\<close>

definition f_twice :: fstate where
  "f_twice = fst (handleIdentify (\<lambda>_. True) 2 ''A'' (fst (handleIdentify (\<lambda>_. True) 1 ''A'' f_empty)))"

text \<open>Every packet that waits in a queue of the file-storage server is a text message.\<close>

definition text_only :: "(uid \<rightharpoonup> fpacket list) \<Rightarrow> bool" where
  "text_only q = (\<forall>u. \<forall>p\<in>set (queueOf q u). p_type p = SendMessage)"

text \<open>
  After the two joins B's socket closes; A relays a text message and then a file chunk.
\<close>

definition f_chunked :: fstate where
  "f_chunked = f_run [(2, Closed), (1, msg_at 6 (Relay text1)), (1, msg_at 7 (Relay chunk))]
                 f_joined"

section \<open>Properties\<close>

lemmas f_defs = f_empty_def msg_at_def handleIdentify_def handleJoinVault_def queueOf_def
  liveSock_def Let_def

lemmas s_defs = s_empty_def on_join_vault_S_def addVaultIfNotExists_def vaultExists_def
  getVaultMemberCount_def addMemberToVault_def getVaultMembers_S_def Let_def

lemmas m_defs = m_empty_def on_join_vault_M_def on_identify_M_def addVaultMember_def setAdd_def
  queueOf_def getAndClearQueue_def getVaultMembers_M_def Let_def

subsection \<open>The private-vault cap\<close>

lemma filter_le_bound: "length xs \<le> n \<Longrightarrow> length (filter P xs) \<le> n"
  using le_trans[OF length_filter_le] by blast

lemma f_cap_join: "f_cap st \<Longrightarrow> f_cap (fst (handleJoinVault isOpen ws vId isPrivate user st))"
  unfolding f_cap_def handleJoinVault_def
  by (auto simp: Let_def split: option.splits if_splits)

lemma f_cap_leave: "f_cap st \<Longrightarrow> f_cap (handleLeaveVault vId user st)"
  unfolding f_cap_def handleLeaveVault_def
  by (auto simp: Let_def split: option.splits if_splits intro!: filter_le_bound)

lemma f_cap_nuke: "f_cap st \<Longrightarrow> f_cap (fst (handleNuke ws user st))"
  unfolding f_cap_def handleNuke_def
  by (auto simp: Let_def split: option.splits if_splits intro!: filter_le_bound)

lemma vaults_identify: "f_vaults (fst (handleIdentify ok ws u st)) = f_vaults st"
  by (auto simp: handleIdentify_def Let_def split: prod.splits bool.splits)

lemma vaults_relay: "f_vaults (fst (handleRelay isOpen now ws msg sender st)) = f_vaults st"
  by (auto simp: handleRelay_def Let_def split: prod.splits option.splits)

lemma f_cap_step: "f_cap st \<Longrightarrow> f_cap (fst (onMessage isOpen ok now ws ev st))"
  by (cases ev)
     (auto simp: f_cap_join f_cap_leave f_cap_nuke, auto simp: f_cap_def vaults_identify vaults_relay)

lemma f_cap_close: "f_cap st \<Longrightarrow> f_cap (onClose ws st)"
  by (simp add: f_cap_def onClose_def split: option.splits)

lemma f_cap_run: "f_cap st \<Longrightarrow> f_cap (f_run evs st)"
  by (induction evs st rule: f_run.induct) (simp_all add: f_cap_step f_cap_close)

lemma third_join_refused:
  "f_vaults st vId = Some v \<Longrightarrow> vtype v = Private \<Longrightarrow> 2 \<le> length (members v) \<Longrightarrow>
   u \<notin> set (members v) \<Longrightarrow> u \<noteq> [] \<Longrightarrow>
   handleJoinVault isOpen ws vId isPrivate (Some u) st = (st, [(ws, FError ''Private vault full'')])"
  by (simp add: handleJoinVault_def Let_def map_upd_triv)

lemma join_keeps_type:
  "f_vaults st vId = Some v \<Longrightarrow>
   map_option vtype (f_vaults (fst (handleJoinVault isOpen ws vId' isPrivate user st)) vId)
   = Some (vtype v)"
  by (auto simp: handleJoinVault_def Let_def split: option.splits)

lemma f_joined_vault:
  "f_vaults f_joined ''V'' = Some \<lparr>members = [''A'', ''B''], vtype = Private\<rparr>"
  by (simp add: f_joined_def f_defs)

text \<open>
  C1 (amended). In the file-storage server the cap is checked against the type stored with
  the vault, which no join changes: through every sequence of messages and closes a
  private vault has at most two members, and a user who is not a member and asks to join a
  private vault that has two members is sent the error frame and the state stays as it
  was. The better-sqlite3 server refuses in the same way when the join request itself says
  \<open>isPrivate\<close>. The in-memory server has no vault type and no cap: a join from an
  identified socket is always added and acknowledged.
\<close>

theorem C1_private_cap:
  "(f_cap st \<longrightarrow> f_cap (f_run evs st))
   \<and> (f_vaults st vId = Some v
      \<longrightarrow> map_option vtype (f_vaults (fst (handleJoinVault isOpen ws vId' isPrivate' user st)) vId)
          = Some (vtype v))
   \<and> (f_vaults st vId = Some v \<and> vtype v = Private \<and> 2 \<le> length (members v)
        \<and> u \<notin> set (members v) \<and> u \<noteq> []
      \<longrightarrow> handleJoinVault isOpen ws vId isPrivate (Some u) st
            = (st, [(ws, FError ''Private vault full'')]))
   \<and> (2 \<le> getVaultMemberCount sst vId
      \<longrightarrow> s_vault_members (fst (on_join_vault_S ws vId True u sst)) = s_vault_members sst
          \<and> snd (on_join_vault_S ws vId True u sst)
              = [(ws, SError ''Private vault already has 2 members.'')])
   \<and> (m_currentUserId mst ws = Some u \<and> u \<noteq> []
      \<longrightarrow> u \<in> set (getVaultMembers_M (fst (on_join_vault_M ws vId mst)) vId)
          \<and> snd (on_join_vault_M ws vId mst) = [(ws, MJoinAck vId)])"
proof (intro conjI impI)
  assume "f_cap st"
  then show "f_cap (f_run evs st)" by (rule f_cap_run)
next
  assume "f_vaults st vId = Some v"
  then show "map_option vtype (f_vaults (fst (handleJoinVault isOpen ws vId' isPrivate' user st)) vId)
          = Some (vtype v)"
    by (rule join_keeps_type)
next
  assume "f_vaults st vId = Some v \<and> vtype v = Private \<and> 2 \<le> length (members v)
        \<and> u \<notin> set (members v) \<and> u \<noteq> []"
  then show "handleJoinVault isOpen ws vId isPrivate (Some u) st
            = (st, [(ws, FError ''Private vault full'')])"
    by (simp add: third_join_refused)
next
  assume a: "2 \<le> getVaultMemberCount sst vId"
  then show "s_vault_members (fst (on_join_vault_S ws vId True u sst)) = s_vault_members sst"
    by (simp add: s_defs)
  from a show "snd (on_join_vault_S ws vId True u sst)
              = [(ws, SError ''Private vault already has 2 members.'')]"
    by (simp add: s_defs)
next
  assume a: "m_currentUserId mst ws = Some u \<and> u \<noteq> []"
  then show "u \<in> set (getVaultMembers_M (fst (on_join_vault_M ws vId mst)) vId)"
    by (simp add: m_defs)
  from a show "snd (on_join_vault_M ws vId mst) = [(ws, MJoinAck vId)]"
    by (simp add: m_defs)
qed

theorem C1_private_cap_witness:
  "f_cap f_empty \<and> f_cap f_joined
   \<and> f_vaults f_joined ''V'' = Some \<lparr>members = [''A'', ''B''], vtype = Private\<rparr>
   \<and> map_option vtype (f_vaults (fst (handleJoinVault (\<lambda>_. True) 3 ''V'' False (Some ''C'') f_joined)) ''V'')
       = Some Private
   \<and> handleJoinVault (\<lambda>_. True) 3 ''V'' True (Some ''C'') f_joined
       = (f_joined, [(3, FError ''Private vault full'')])
   \<and> getVaultMemberCount s_joined ''V'' = 2
   \<and> s_vault_members (fst (on_join_vault_S 3 ''V'' True ''C'' s_joined)) = s_vault_members s_joined
   \<and> snd (on_join_vault_S 3 ''V'' True ''C'' s_joined)
       = [(3, SError ''Private vault already has 2 members.'')]
   \<and> m_currentUserId m_joined 3 = Some ''C''
   \<and> ''C'' \<in> set (getVaultMembers_M (fst (on_join_vault_M 3 ''V'' m_joined)) ''V'')
   \<and> snd (on_join_vault_M 3 ''V'' m_joined) = [(3, MJoinAck ''V'')]"
proof -
  have e: "f_cap f_empty" by (simp add: f_cap_def f_empty_def)
  have c: "getVaultMemberCount s_joined ''V'' = 2" by (simp add: s_joined_def s_defs)
  have i: "m_currentUserId m_joined 3 = Some ''C''" by (simp add: m_joined_def m_defs)
  note r = C1_private_cap [where st = f_empty
      and evs = "[(1, msg_at 1 (Identify ''A'')), (1, msg_at 2 (JoinVault ''V'' True)),
                  (2, msg_at 3 (Identify ''B'')), (2, msg_at 4 (JoinVault ''V'' True)),
                  (3, msg_at 5 (Identify ''C''))]"
      and sst = s_joined and mst = m_joined and vId = "''V''" and u = "''C''" and ws = 3]
  note t = C1_private_cap [where st = f_joined and vId = "''V''" and u = "''C''" and ws = 3
      and v = "\<lparr>members = [''A'', ''B''], vtype = Private\<rparr>" and isOpen = "\<lambda>_. True"
      and isPrivate = True and vId' = "''V''" and isPrivate' = False and user = "Some ''C''"]
  from e r have "f_cap f_joined" by (simp add: f_joined_def)
  moreover from t f_joined_vault
  have "map_option vtype (f_vaults (fst (handleJoinVault (\<lambda>_. True) 3 ''V'' False (Some ''C'') f_joined)) ''V'')
       = Some Private" by simp
  moreover from t f_joined_vault
  have "handleJoinVault (\<lambda>_. True) 3 ''V'' True (Some ''C'') f_joined
       = (f_joined, [(3, FError ''Private vault full'')])" by simp
  moreover from r c i
  have "s_vault_members (fst (on_join_vault_S 3 ''V'' True ''C'' s_joined)) = s_vault_members s_joined
   \<and> snd (on_join_vault_S 3 ''V'' True ''C'' s_joined)
       = [(3, SError ''Private vault already has 2 members.'')]
   \<and> ''C'' \<in> set (getVaultMembers_M (fst (on_join_vault_M 3 ''V'' m_joined)) ''V'')
   \<and> snd (on_join_vault_M 3 ''V'' m_joined) = [(3, MJoinAck ''V'')]" by simp
  ultimately show ?thesis using e c i f_joined_vault by simp
qed

text \<open>
  C1 as stated fails. On the better-sqlite3 server the cap is checked against the type the
  request declares, so a third user who joins the private vault V with \<open>isPrivate\<close> false
  is added and acknowledged; on the in-memory server the third join is added as well.
\<close>

theorem C1_counterexample:
  "s_vaults (fst (on_join_vault_S 3 ''V'' False ''C'' s_joined)) = [(''V'', Private)]
   \<and> getVaultMemberCount (fst (on_join_vault_S 3 ''V'' False ''C'' s_joined)) ''V'' = 3
   \<and> snd (on_join_vault_S 3 ''V'' False ''C'' s_joined) = [(3, SJoinAck ''V'')]
   \<and> getVaultMembers_M (fst (on_join_vault_M 3 ''V'' m_joined)) ''V'' = [''A'', ''B'', ''C'']
   \<and> snd (on_join_vault_M 3 ''V'' m_joined) = [(3, MJoinAck ''V'')]"
  by (simp add: s_joined_def m_joined_def s_defs m_defs)

subsection \<open>The drain of a queue on identify\<close>

lemmas m_send_defs = on_send_M_def sendTo_M_def addToQueue_def onClose_M_def orElse_str_def
  orElse_int_def liveSock_def

lemma forEachSend_all:
  "(\<forall>j<length xs. ok (i + j)) \<Longrightarrow> forEachSend ok i ws xs = (map (Pair ws) xs, True)"
proof (induction xs arbitrary: i)
  case Nil
  then show ?case by simp
next
  case (Cons x xs)
  have "ok i" using Cons.prems by (metis add.right_neutral length_greater_0_conv list.discI)
  moreover have "\<forall>j<length xs. ok (Suc i + j)" using Cons.prems by fastforce
  ultimately show ?case using Cons.IH[of "Suc i"] by simp
qed

lemma forEachSend_stop:
  "n < length xs \<Longrightarrow> (\<forall>j<n. ok (i + j)) \<Longrightarrow> \<not> ok (i + n) \<Longrightarrow>
   forEachSend ok i ws xs = (map (Pair ws) (take n xs), False)"
proof (induction xs arbitrary: i n)
  case Nil
  then show ?case by simp
next
  case (Cons x xs)
  show ?case
  proof (cases n)
    case 0
    then show ?thesis using Cons.prems by simp
  next
    case (Suc k)
    have "ok i" using Cons.prems(2) Suc by (metis add.right_neutral zero_less_Suc)
    moreover have "k < length xs" using Cons.prems(1) Suc by simp
    moreover have "\<forall>j<k. ok (Suc i + j)" using Cons.prems(2) Suc by fastforce
    moreover have "\<not> ok (Suc i + k)" using Cons.prems(3) Suc by simp
    ultimately show ?thesis using Cons.IH[of k "Suc i"] Suc by simp
  qed
qed

lemma identify_interrupted:
  assumes "queueOf (f_messages st) u = q" "n < length q" "\<forall>j<n. ok j" "\<not> ok n"
  shows "f_messages (fst (handleIdentify ok ws u st)) = f_messages st"
    and "snd (handleIdentify ok ws u st) = map (\<lambda>p. (ws, FPacket p)) (take n q)"
proof -
  have ne: "q \<noteq> []" using assms(2) by auto
  have "n < length (map FPacket q)" using assms(2) by simp
  from forEachSend_stop[OF this, of ok 0 ws] assms(3,4)
  have f: "forEachSend ok 0 ws (map FPacket q) = (map (Pair ws) (take n (map FPacket q)), False)"
    by simp
  show "f_messages (fst (handleIdentify ok ws u st)) = f_messages st"
    using assms(1) ne f by (simp add: handleIdentify_def Let_def)
  show "snd (handleIdentify ok ws u st) = map (\<lambda>p. (ws, FPacket p)) (take n q)"
    using assms(1) ne f by (simp add: handleIdentify_def Let_def take_map)
qed

lemma identify_complete:
  assumes "queueOf (f_messages st) u = q" "\<forall>j<length q. ok j"
  shows "queueOf (f_messages (fst (handleIdentify ok ws u st))) u = []"
    and "snd (handleIdentify ok ws u st) = map (\<lambda>p. (ws, FPacket p)) q @ [(ws, FIdentified u)]"
proof -
  from forEachSend_all[of "map FPacket q" ok 0 ws] assms(2)
  have f: "forEachSend ok 0 ws (map FPacket q) = (map (Pair ws) (map FPacket q), True)" by simp
  show "queueOf (f_messages (fst (handleIdentify ok ws u st))) u = []"
    using assms(1) f by (cases "q = []") (simp_all add: handleIdentify_def Let_def queueOf_def)
  show "snd (handleIdentify ok ws u st) = map (\<lambda>p. (ws, FPacket p)) q @ [(ws, FIdentified u)]"
    using assms(1) f by (cases "q = []") (simp_all add: handleIdentify_def Let_def)
qed

lemma m_identify_clears: "messageQueue (fst (on_identify_M ok ws u vaults st)) u = None"
  by (simp add: on_identify_M_def getAndClearQueue_def Let_def split: prod.splits bool.splits)

lemma e_fold_keeps:
  "e_connections (fold (\<lambda>vId s. s\<lparr>e_vaults := (e_vaults s)
        (vId \<mapsto> (ensureVault_E vId u s)\<lparr>e_members := setAdd u (e_members (ensureVault_E vId u s))\<rparr>)\<rparr>)
      vaults s0) = e_connections s0"
  by (induction vaults arbitrary: s0) simp_all

text \<open>
  The express server catches a throwing forward inside the loop and empties the queue after
  the loop in every case.
\<close>

lemma e_identify_clears:
  "u \<noteq> [] \<Longrightarrow> queueOf (e_queues (fst (on_identify_E ok ws u vaults st))) u = []"
  by (simp add: on_identify_E_def deliverQueued_def e_fold_keeps queueOf_def Let_def
           split: prod.splits)

lemma f_queued_queue: "queueOf (f_messages f_queued) ''B'' = [pk1, pk2]"
  by (simp add: f_queued_def f_joined_def f_defs onClose_def handleRelay_def relayTo_def
                text1_def text2_def pk1_def pk2_def)

lemma m_queued_queue: "messageQueue m_queued ''B'' = Some [mq1, mq2]"
  by (simp add: m_queued_def m_joined_def m_defs m_send_defs mq1_def mq2_def)

text \<open>
  C3 (amended). In the file-storage server the queue is cleared by one statement after the
  loop that forwards it, so only when every forward has returned. If the forward of the
  envelope at position \<open>n\<close> of the queue \<open>q\<close> throws, the \<open>n\<close> envelopes before it have been
  written, nothing has been removed and all of \<open>q\<close> is still queued; the next identify whose
  forwards return writes all of \<open>q\<close> in order (the first \<open>n\<close> a second time) and empties the
  queue. The in-memory server removes the queue before it forwards: after an identify the
  queue is gone there, also when a forward failed.
\<close>

theorem C3_drain_clears_after_forwarding:
  assumes "queueOf (f_messages st) u = q" and "n < length q" and "\<forall>j<n. ok j" and "\<not> ok n"
    and "\<forall>j<length q. ok' j"
  shows "snd (handleIdentify ok ws u st) = map (\<lambda>p. (ws, FPacket p)) (take n q)
       \<and> queueOf (f_messages (fst (handleIdentify ok ws u st))) u = q
       \<and> snd (handleIdentify ok' ws' u (fst (handleIdentify ok ws u st)))
           = map (\<lambda>p. (ws', FPacket p)) q @ [(ws', FIdentified u)]
       \<and> queueOf (f_messages (fst (handleIdentify ok' ws' u (fst (handleIdentify ok ws u st))))) u = []
       \<and> messageQueue (fst (on_identify_M ok ws u vaults mst)) u = None"
proof -
  let ?st1 = "fst (handleIdentify ok ws u st)"
  have k: "f_messages ?st1 = f_messages st"
    using identify_interrupted(1)[OF assms(1-4)] .
  then have q1: "queueOf (f_messages ?st1) u = q" using assms(1) by simp
  show ?thesis
    using identify_interrupted(2)[OF assms(1-4)] q1
      identify_complete[OF q1 assms(5)] m_identify_clears
    by simp
qed

theorem C3_drain_clears_after_forwarding_witness:
  "queueOf (f_messages f_queued) ''B'' = [pk1, pk2]
   \<and> snd (handleIdentify (\<lambda>i. i < 1) 4 ''B'' f_queued) = [(4, FPacket pk1)]
   \<and> queueOf (f_messages (fst (handleIdentify (\<lambda>i. i < 1) 4 ''B'' f_queued))) ''B'' = [pk1, pk2]
   \<and> snd (handleIdentify (\<lambda>_. True) 5 ''B'' (fst (handleIdentify (\<lambda>i. i < 1) 4 ''B'' f_queued)))
       = [(5, FPacket pk1), (5, FPacket pk2), (5, FIdentified ''B'')]
   \<and> queueOf (f_messages (fst (handleIdentify (\<lambda>_. True) 5 ''B''
        (fst (handleIdentify (\<lambda>i. i < 1) 4 ''B'' f_queued))))) ''B'' = []
   \<and> messageQueue (fst (on_identify_M (\<lambda>i. i < 1) 4 ''B'' [] m_queued)) ''B'' = None"
  using C3_drain_clears_after_forwarding [where st = f_queued and u = "''B''" and q = "[pk1, pk2]"
      and n = 1 and ok = "\<lambda>i. i < 1" and ok' = "\<lambda>_. True" and ws = 4 and ws' = 5
      and vaults = "[]" and mst = m_queued]
    f_queued_queue
  by simp

text \<open>
  C3 as stated fails on the in-memory server: B's queue holds two envelopes, the forward of
  the second throws, and the queue has been removed all the same; the next identify of B
  writes the acknowledgement alone, so the second envelope is never delivered.
\<close>

theorem C3_counterexample:
  "messageQueue m_queued ''B'' = Some [mq1, mq2]
   \<and> snd (on_identify_M (\<lambda>i. i < 1) 4 ''B'' [] m_queued) = [(4, MMessage mq1)]
   \<and> messageQueue (fst (on_identify_M (\<lambda>i. i < 1) 4 ''B'' [] m_queued)) ''B'' = None
   \<and> snd (on_identify_M (\<lambda>_. True) 5 ''B'' []
            (fst (on_identify_M (\<lambda>i. i < 1) 4 ''B'' [] m_queued)))
       = [(5, MIdentifyAck ''B'')]"
  using m_queued_queue by (simp add: on_identify_M_def getAndClearQueue_def queueOf_def)

subsection \<open>Nuke\<close>

lemmas a_defs = a_empty_def on_identify_A_def on_send_A_def on_nuke_A_def addToLiveVault_def
  setAdd_def queueOf_def storeMessage_A_def deliverOfflineMessages_A_def sendToUser_A_def
  broadcastToVault_A_def liveSock_def on_join_vault_A_def Let_def

lemmas s_send_defs = on_send_S_def deliverMessageToVaultMembers_S_def queueMessage_S_def
  deliverTo_S_def markMessageDelivered_def liveSock_def

lemma nuke_F:
  assumes "f_auth st ws = Some u" "u \<noteq> []"
  shows "\<forall>vId v. f_vaults (fst (onMessage isOpen ok now ws Nuke st)) vId = Some v
                  \<longrightarrow> u \<notin> set (members v)"
    and "f_messages (fst (onMessage isOpen ok now ws Nuke st)) u = None"
    and "f_connections (fst (onMessage isOpen ok now ws Nuke st)) u = None"
    and "snd (onMessage isOpen ok now ws Nuke st) = [(ws, FNuked)]"
    and "snd (handleIdentify ok' ws' u (fst (onMessage isOpen ok now ws Nuke st)))
           = [(ws', FIdentified u)]"
  using assms by (auto simp: handleNuke_def handleIdentify_def queueOf_def Let_def)

lemma undelivered_none:
  "\<forall>r\<in>set (s_vault_members st). snd r \<noteq> u \<Longrightarrow> getUndeliveredMessagesForUser st u = []"
proof -
  assume "\<forall>r\<in>set (s_vault_members st). snd r \<noteq> u"
  then have "set (getUndeliveredMessagesForUser st u) = {}"
    by (auto simp: getUndeliveredMessagesForUser_def)
  then show ?thesis by simp
qed

lemma nuke_S:
  shows "\<forall>r\<in>set (s_vault_members (fst (on_nuke_S ws u st))). snd r \<noteq> u"
    and "snd (on_identify_S ws' u (fst (on_nuke_S ws u st))) = [(ws', SIdentifyAck u)]"
proof -
  show a: "\<forall>r\<in>set (s_vault_members (fst (on_nuke_S ws u st))). snd r \<noteq> u"
    by (simp add: on_nuke_S_def)
  let ?n = "fst (on_nuke_S ws u st)"
  let ?st1 = "?n\<lparr>s_currentUserId := (s_currentUserId ?n)(ws' := Some u),
                  s_connections := (s_connections ?n)(u \<mapsto> ws')\<rparr>"
  have "getUndeliveredMessagesForUser ?st1 u = []"
    using a by (intro undelivered_none) simp
  then show "snd (on_identify_S ws' u (fst (on_nuke_S ws u st))) = [(ws', SIdentifyAck u)]"
    by (simp add: on_identify_S_def Let_def)
qed

text \<open>
  On the better-sqlite3 server the nuke changes no message row and writes no frame: a row
  sent to a vault of \<open>u\<close> is still undelivered after it.
\<close>

lemma nuke_S_keeps_messages:
  "s_messages (fst (on_nuke_S ws u st)) = s_messages st \<and> snd (on_nuke_S ws u st) = []"
  by (simp add: on_nuke_S_def)

lemma nuke_A:
  shows "a_vaultMembers (on_nuke_A ws st) = a_vaultMembers st"
    and "a_liveVaultMap (on_nuke_A ws st) = a_liveVaultMap st"
    and "\<forall>m\<in>set (a_messages st). a_userId st ws \<noteq> Some (a_fromUser m)
           \<longrightarrow> m \<in> set (a_messages (on_nuke_A ws st))"
  by (auto simp: on_nuke_A_def split: option.splits)

lemma nuke_A_deletes_sent:
  "a_userId st ws = Some u \<Longrightarrow> u \<noteq> [] \<Longrightarrow>
   a_messages (on_nuke_A ws st) = filter (\<lambda>m. a_fromUser m \<noteq> u) (a_messages st)"
  by (simp add: on_nuke_A_def)

lemma f_back_state:
  "f_auth f_back 4 = Some ''B''" "queueOf (f_messages f_back) ''B'' = [pk1, pk2]"
  "f_vaults f_back ''V'' = Some \<lparr>members = [''A'', ''B''], vtype = Private\<rparr>"
proof -
  have q: "queueOf (f_messages f_queued) ''B'' = [pk1, pk2]" by (rule f_queued_queue)
  show "f_auth f_back 4 = Some ''B''"
    using q by (simp add: f_back_def handleIdentify_def Let_def)
  show "queueOf (f_messages f_back) ''B'' = [pk1, pk2]"
    using q by (simp add: f_back_def handleIdentify_def Let_def)
  have "f_vaults f_back = f_vaults f_joined"
    by (simp add: f_back_def f_queued_def msg_at_def vaults_identify vaults_relay onClose_def
             split: option.splits)
  then show "f_vaults f_back ''V'' = Some \<lparr>members = [''A'', ''B''], vtype = Private\<rparr>"
    using f_joined_vault by simp
qed

text \<open>
  C4 (amended). In the file-storage server, after the nuke of an identified user \<open>u\<close>, \<open>u\<close> is
  in the member list of no vault, the queue and the registry entry of \<open>u\<close> are deleted, the
  reply is \<open>nuked\<close>, and the next identify of \<open>u\<close> writes no queued envelope. In the
  better-sqlite3 server nuke deletes every membership row of \<open>u\<close>; the drain reads messages
  through the membership table, so the next identify of \<open>u\<close> finds none. In the sqlite3
  server the nuke from a socket identified as \<open>ua\<close> deletes exactly the messages that \<open>ua\<close>
  sent and nothing else: the membership rows, the live-vault map and the messages of other
  senders stay.
\<close>

theorem C4_nuke_erases_user:
  assumes "f_auth st ws = Some u" and "u \<noteq> []"
  shows "(\<forall>vId v. f_vaults (fst (onMessage isOpen ok now ws Nuke st)) vId = Some v
                   \<longrightarrow> u \<notin> set (members v))
       \<and> f_messages (fst (onMessage isOpen ok now ws Nuke st)) u = None
       \<and> f_connections (fst (onMessage isOpen ok now ws Nuke st)) u = None
       \<and> snd (onMessage isOpen ok now ws Nuke st) = [(ws, FNuked)]
       \<and> snd (handleIdentify ok' ws' u (fst (onMessage isOpen ok now ws Nuke st)))
           = [(ws', FIdentified u)]
       \<and> (\<forall>r\<in>set (s_vault_members (fst (on_nuke_S ws u sst))). snd r \<noteq> u)
       \<and> snd (on_identify_S ws' u (fst (on_nuke_S ws u sst))) = [(ws', SIdentifyAck u)]
       \<and> (a_userId ast wa = Some ua \<and> ua \<noteq> []
             \<longrightarrow> a_messages (on_nuke_A wa ast)
                 = filter (\<lambda>m. a_fromUser m \<noteq> ua) (a_messages ast))
       \<and> a_vaultMembers (on_nuke_A wa ast) = a_vaultMembers ast
       \<and> a_liveVaultMap (on_nuke_A wa ast) = a_liveVaultMap ast
       \<and> (\<forall>m\<in>set (a_messages ast). a_userId ast wa \<noteq> Some (a_fromUser m)
             \<longrightarrow> m \<in> set (a_messages (on_nuke_A wa ast)))"
  using nuke_F[OF assms] nuke_S nuke_A nuke_A_deletes_sent by simp

theorem C4_nuke_erases_user_witness:
  "f_auth f_back 4 = Some ''B'' \<and> queueOf (f_messages f_back) ''B'' = [pk1, pk2]
   \<and> f_vaults f_back ''V'' = Some \<lparr>members = [''A'', ''B''], vtype = Private\<rparr>
   \<and> f_vaults (fst (onMessage (\<lambda>_. True) (\<lambda>_. True) 8 4 Nuke f_back)) ''V''
       = Some \<lparr>members = [''A''], vtype = Private\<rparr>
   \<and> f_messages (fst (onMessage (\<lambda>_. True) (\<lambda>_. True) 8 4 Nuke f_back)) ''B'' = None
   \<and> snd (handleIdentify (\<lambda>_. True) 5 ''B'' (fst (onMessage (\<lambda>_. True) (\<lambda>_. True) 8 4 Nuke f_back)))
       = [(5, FIdentified ''B'')]
   \<and> s_vault_members s_sent = [(''V'', ''A''), (''V'', ''B'')]
   \<and> s_vault_members (fst (on_nuke_S 4 ''B'' s_sent)) = [(''V'', ''A'')]
   \<and> snd (on_identify_S 5 ''B'' (fst (on_nuke_S 4 ''B'' s_sent))) = [(5, SIdentifyAck ''B'')]
   \<and> a_userId a_sent 2 = Some ''A''
   \<and> map a_id (a_messages a_sent) = [''id1'']
   \<and> a_messages (on_nuke_A 2 a_sent) = []
   \<and> a_vaultMembers (on_nuke_A 2 a_sent) = [(''V'', ''U''), (''V'', ''A'')]"
proof -
  have m: "s_vault_members s_sent = [(''V'', ''A''), (''V'', ''B'')]"
    by (simp add: s_sent_def s_joined_def s_defs s_send_defs)
  have a: "a_userId a_sent 2 = Some ''A''" by (simp add: a_sent_def a_defs)
  have b: "a_messages a_sent
           = [\<lparr>a_id = ''id1'', a_vaultId = ''V'', a_fromUser = ''A'', a_messageBlob = ''ct1'',
               a_timestamp = 10\<rparr>]"
    by (simp add: a_sent_def a_defs)
  have c: "a_vaultMembers a_sent = [(''V'', ''U''), (''V'', ''A'')]"
    by (simp add: a_sent_def a_defs)
  from C4_nuke_erases_user [where st = f_back and ws = 4 and u = "''B''" and isOpen = "\<lambda>_. True"
      and ok = "\<lambda>_. True" and ok' = "\<lambda>_. True" and now = 8 and ws' = 5 and sst = s_sent
      and ast = a_sent and wa = 2 and ua = "''A''"]
    f_back_state m a b c
  show ?thesis by (simp add: handleNuke_def on_nuke_S_def)
qed

text \<open>
  C4 as stated fails on the sqlite3 server: after U's nuke the membership row of U and the
  live-vault entry are still there, the message A sent to V is still stored, and the next
  identify of U forwards it.
\<close>

theorem C4_counterexample:
  "a_userId a_nuked 1 = Some ''U''
   \<and> (''V'', ''U'') \<in> set (a_vaultMembers a_nuked)
   \<and> a_liveVaultMap a_nuked ''V'' = Some [''U'', ''A'']
   \<and> map a_id (a_messages a_nuked) = [''id1'']
   \<and> snd (on_identify_A (\<lambda>_. True) 3 ''U'' [''V''] a_nuked)
       = [(3, AMessage ''V'' ''A'' ''ct1'' 10), (3, AIdentifyAck)]"
  by (simp add: a_nuked_def a_defs)

subsection \<open>Order of the drain\<close>

lemma drain_fold_S:
  "fold (\<lambda>m acc. case acc of (s, out) \<Rightarrow> (markMessageDelivered (row_id m) s, out @ [(ws, F m)]))
        xs (s0, out0)
   = (fold (\<lambda>m. markMessageDelivered (row_id m)) xs s0, out0 @ map (\<lambda>m. (ws, F m)) xs)"
  by (induction xs arbitrary: s0 out0) simp_all

lemma identify_S_frames:
  "snd (on_identify_S ws u st)
   = map (\<lambda>m. (ws, SMessage (row_vault_id m) (row_json m) (row_sender_id m) (row_id m) (row_ts m)))
         (getUndeliveredMessagesForUser st u) @ [(ws, SIdentifyAck u)]"
proof -
  let ?st1 = "st\<lparr>s_currentUserId := (s_currentUserId st)(ws := Some u),
                 s_connections := (s_connections st)(u \<mapsto> ws)\<rparr>"
  have "getUndeliveredMessagesForUser ?st1 u = getUndeliveredMessagesForUser st u"
    by (simp add: getUndeliveredMessagesForUser_def)
  then show ?thesis
    by (simp add: on_identify_S_def Let_def drain_fold_S)
qed

lemma offline_A_frames:
  "liveSock isOpen (a_clients st) u = Some s \<Longrightarrow>
   deliverOfflineMessages_A isOpen st u vs
   = map (\<lambda>row. (s, AMessage (a_vaultId row) (a_fromUser row) (a_messageBlob row) (a_timestamp row)))
         (sort_key a_timestamp (filter (\<lambda>m. a_vaultId m \<in> set vs) (a_messages st)))"
  by (simp add: deliverOfflineMessages_A_def sendToUser_A_def)

lemma m_fold_keeps:
  "messageQueue (fold (\<lambda>vaultId s. addVaultMember vaultId u
                   (s\<lparr>m_userVaults := (m_userVaults s)(ws := setAdd vaultId (m_userVaults s ws))\<rparr>))
                 vaults s0) = messageQueue s0"
  by (induction vaults arbitrary: s0) (simp_all add: addVaultMember_def)

lemma identify_M_frames:
  assumes "\<forall>j<length (queueOf (messageQueue st) u). ok j"
  shows "snd (on_identify_M ok ws u vaults st)
         = map (\<lambda>m. (ws, MMessage m)) (queueOf (messageQueue st) u) @ [(ws, MIdentifyAck u)]"
proof -
  from forEachSend_all[of "map MMessage (queueOf (messageQueue st) u)" ok 0 ws] assms
  have "forEachSend ok 0 ws (map MMessage (queueOf (messageQueue st) u))
        = (map (Pair ws) (map MMessage (queueOf (messageQueue st) u)), True)" by simp
  then show ?thesis
    by (simp add: on_identify_M_def getAndClearQueue_def Let_def m_fold_keeps)
qed

text \<open>
  C6 (amended). The two SQL servers read the drain with \<open>ORDER BY\<close> the timestamp: on the
  better-sqlite3 server the frames written on identify are the undelivered messages of the
  user's vaults in ascending \<open>ts\<close>, and on the sqlite3 server \<open>deliverOfflineMessages\<close> writes
  the stored messages of the declared vaults in ascending \<open>timestamp\<close>. The in-memory
  server writes the queue in the order in which the envelopes were queued, whatever their
  timestamps are.
\<close>

theorem C6_drain_order:
  "sorted (map row_ts (getUndeliveredMessagesForUser sst u))
   \<and> snd (on_identify_S ws u sst)
       = map (\<lambda>m. (ws, SMessage (row_vault_id m) (row_json m) (row_sender_id m) (row_id m) (row_ts m)))
             (getUndeliveredMessagesForUser sst u) @ [(ws, SIdentifyAck u)]
   \<and> sorted (map a_timestamp (sort_key a_timestamp (filter (\<lambda>m. a_vaultId m \<in> set vs) (a_messages ast))))
   \<and> (liveSock isOpen (a_clients ast) u = Some s
      \<longrightarrow> deliverOfflineMessages_A isOpen ast u vs
          = map (\<lambda>row. (s, AMessage (a_vaultId row) (a_fromUser row) (a_messageBlob row) (a_timestamp row)))
                (sort_key a_timestamp (filter (\<lambda>m. a_vaultId m \<in> set vs) (a_messages ast))))
   \<and> ((\<forall>j<length (queueOf (messageQueue mst) u). ok j)
      \<longrightarrow> snd (on_identify_M ok ws u vaults mst)
          = map (\<lambda>m. (ws, MMessage m)) (queueOf (messageQueue mst) u) @ [(ws, MIdentifyAck u)])"
  using identify_S_frames offline_A_frames identify_M_frames
  by (simp add: getUndeliveredMessagesForUser_def)

theorem C6_drain_order_witness:
  "map row_ts (s_messages s_sent) = [20, 10]
   \<and> snd (on_identify_S 2 ''B'' s_sent)
       = [(2, SMessage ''V'' ''ct2'' ''A'' ''id2'' 10), (2, SMessage ''V'' ''ct1'' ''A'' ''id1'' 20),
          (2, SIdentifyAck ''B'')]
   \<and> liveSock (\<lambda>_. True) (a_clients a_nuked) ''A'' = Some 2
   \<and> deliverOfflineMessages_A (\<lambda>_. True) a_nuked ''A'' [''V''] = [(2, AMessage ''V'' ''A'' ''ct1'' 10)]
   \<and> snd (on_identify_M (\<lambda>_. True) 4 ''B'' [] m_queued)
       = [(4, MMessage mq1), (4, MMessage mq2), (4, MIdentifyAck ''B'')]"
proof -
  have u: "getUndeliveredMessagesForUser s_sent ''B''
           = [\<lparr>row_id = ''id2'', row_vault_id = ''V'', row_sender_id = ''A'', row_ts = 10,
               row_json = ''ct2'', row_delivered = False\<rparr>,
              \<lparr>row_id = ''id1'', row_vault_id = ''V'', row_sender_id = ''A'', row_ts = 20,
               row_json = ''ct1'', row_delivered = False\<rparr>]"
    by (simp add: s_sent_def s_joined_def s_defs s_send_defs getUndeliveredMessagesForUser_def)
  have t: "map row_ts (s_messages s_sent) = [20, 10]"
    by (simp add: s_sent_def s_joined_def s_defs s_send_defs)
  have l: "liveSock (\<lambda>_. True) (a_clients a_nuked) ''A'' = Some 2"
    by (simp add: a_nuked_def a_defs)
  have m: "sort_key a_timestamp (filter (\<lambda>m. a_vaultId m \<in> set [''V'']) (a_messages a_nuked))
           = [\<lparr>a_id = ''id1'', a_vaultId = ''V'', a_fromUser = ''A'', a_messageBlob = ''ct1'',
               a_timestamp = 10\<rparr>]"
    by (simp add: a_nuked_def a_defs)
  from C6_drain_order [where sst = s_sent and u = "''B''" and ws = 2]
  have "snd (on_identify_S 2 ''B'' s_sent)
       = [(2, SMessage ''V'' ''ct2'' ''A'' ''id2'' 10), (2, SMessage ''V'' ''ct1'' ''A'' ''id1'' 20),
          (2, SIdentifyAck ''B'')]"
    using u by simp
  moreover
  from C6_drain_order [where ast = a_nuked and u = "''A''" and isOpen = "\<lambda>_. True" and s = 2
      and vs = "[''V'']"] l m
  have "deliverOfflineMessages_A (\<lambda>_. True) a_nuked ''A'' [''V''] = [(2, AMessage ''V'' ''A'' ''ct1'' 10)]"
    by simp
  moreover
  from C6_drain_order [where mst = m_queued and u = "''B''" and ok = "\<lambda>_. True" and ws = 4
      and vaults = "[]"] m_queued_queue
  have "snd (on_identify_M (\<lambda>_. True) 4 ''B'' [] m_queued)
       = [(4, MMessage mq1), (4, MMessage mq2), (4, MIdentifyAck ''B'')]"
    by (simp add: queueOf_def)
  ultimately show ?thesis using t l by simp
qed

text \<open>
  C6 as stated fails on the in-memory server: the envelope with timestamp 20 was queued
  before the one with timestamp 10, and the drain writes them in that order.
\<close>

theorem C6_counterexample:
  "map q_ts (queueOf (messageQueue m_queued) ''B'') = [20, 10]
   \<and> snd (on_identify_M (\<lambda>_. True) 4 ''B'' [] m_queued)
       = [(4, MMessage mq1), (4, MMessage mq2), (4, MIdentifyAck ''B'')]
   \<and> q_ts mq1 = 20 \<and> q_ts mq2 = 10"
  using m_queued_queue
  by (simp add: on_identify_M_def getAndClearQueue_def queueOf_def mq1_def mq2_def)

subsection \<open>A send to a vault that does not exist\<close>

lemma send_E_unknown:
  "e_vaults st (e_vaultId msg) = None \<Longrightarrow> e_vaultId msg \<noteq> [] \<Longrightarrow> e_from msg \<noteq> [] \<Longrightarrow>
   on_send_E ok ws msg st = (st, [(ws, ESendAckUnknownVault)])"
  by (simp add: on_send_E_def)

lemma relay_F_unknown:
  "f_vaults st (m_vaultId msg) = None \<Longrightarrow> handleRelay isOpen now ws msg sender st = (st, [])"
  by (simp add: handleRelay_def split: option.splits)

lemma send_S_unknown:
  "getVaultMembers_S st vaultId = [] \<Longrightarrow> newId \<notin> set (map row_id (s_messages st)) \<Longrightarrow>
   on_send_S isOpen newId ws vaultId blob src ts st
   = (queueMessage_S newId vaultId src blob ts st, [(ws, SSendAck)])"
  by (simp add: on_send_S_def deliverMessageToVaultMembers_S_def getVaultMembers_S_def
                queueMessage_S_def Let_def)

text \<open>
  C7 (amended). A send to a vault that does not exist changes no state on the express
  server, which replies \<open>send-ack\<close> with \<open>ok: false\<close> and \<open>unknown-vault\<close>, and none on the
  file-storage server, which drops the message without a reply. The better-sqlite3 server
  does not look the vault up: when the vault has no member row the message row is inserted
  all the same and the sender gets the plain \<open>send-ack\<close>.
\<close>

theorem C7_send_to_unknown_vault:
  "(e_vaults est (e_vaultId emsg) = None \<and> e_vaultId emsg \<noteq> [] \<and> e_from emsg \<noteq> []
      \<longrightarrow> on_send_E ok ws emsg est = (est, [(ws, ESendAckUnknownVault)]))
   \<and> (f_vaults st (m_vaultId msg) = None
      \<longrightarrow> handleRelay isOpen now ws msg sender st = (st, []))
   \<and> (getVaultMembers_S sst vaultId = [] \<and> newId \<notin> set (map row_id (s_messages sst))
      \<longrightarrow> on_send_S isOpen newId ws vaultId blob src ts sst
          = (queueMessage_S newId vaultId src blob ts sst, [(ws, SSendAck)]))"
  using send_E_unknown relay_F_unknown send_S_unknown by simp

theorem C7_send_to_unknown_vault_witness:
  "e_vaults e_empty (e_vaultId send_nope) = None \<and> e_vaultId send_nope \<noteq> [] \<and> e_from send_nope \<noteq> []
   \<and> on_send_E (\<lambda>_. True) 1 send_nope e_empty = (e_empty, [(1, ESendAckUnknownVault)])
   \<and> f_vaults f_joined (m_vaultId text_nope) = None
   \<and> handleRelay (\<lambda>_. True) 9 1 text_nope (Some ''A'') f_joined = (f_joined, [])
   \<and> getVaultMembers_S s_joined ''nope'' = [] \<and> ''id1'' \<notin> set (map row_id (s_messages s_joined))
   \<and> on_send_S (\<lambda>_. True) ''id1'' 1 ''nope'' ''ct'' ''A'' 5 s_joined
       = (queueMessage_S ''id1'' ''nope'' ''A'' ''ct'' 5 s_joined, [(1, SSendAck)])"
proof -
  have e: "e_vaults e_empty (e_vaultId send_nope) = None \<and> e_vaultId send_nope \<noteq> []
           \<and> e_from send_nope \<noteq> []"
    by (simp add: e_empty_def send_nope_def)
  have f: "f_vaults f_joined (m_vaultId text_nope) = None"
    by (simp add: f_joined_def f_defs text_nope_def)
  have s: "getVaultMembers_S s_joined ''nope'' = [] \<and> ''id1'' \<notin> set (map row_id (s_messages s_joined))"
    by (simp add: s_joined_def s_defs)
  from C7_send_to_unknown_vault [where est = e_empty and emsg = send_nope and ok = "\<lambda>_. True"
      and ws = 1 and st = f_joined and msg = text_nope and isOpen = "\<lambda>_. True" and now = 9
      and sender = "Some ''A''" and sst = s_joined and vaultId = "''nope''" and newId = "''id1''"
      and blob = "''ct''" and src = "''A''" and ts = 5] e f s
  show ?thesis by simp
qed

text \<open>
  C7 as stated fails on the better-sqlite3 server: a send to the vault \<open>nope\<close>, which nobody
  has created, inserts a message row and is answered with the plain \<open>send-ack\<close>.
\<close>

theorem C7_counterexample:
  "\<not> vaultExists s_empty ''nope''
   \<and> s_messages (fst (on_send_S (\<lambda>_. True) ''id1'' 1 ''nope'' ''ct'' ''A'' 5 s_empty))
       = [\<lparr>row_id = ''id1'', row_vault_id = ''nope'', row_sender_id = ''A'', row_ts = 5,
           row_json = ''ct'', row_delivered = False\<rparr>]
   \<and> snd (on_send_S (\<lambda>_. True) ''id1'' 1 ''nope'' ''ct'' ''A'' 5 s_empty) = [(1, SSendAck)]"
  by (simp add: on_send_S_def deliverMessageToVaultMembers_S_def getVaultMembers_S_def
                queueMessage_S_def Let_def s_empty_def vaultExists_def)

subsection \<open>Delivery per recipient\<close>

lemma queueOf_upd: "queueOf (q(x \<mapsto> l)) m = (if m = x then l else queueOf q m)"
  by (simp add: queueOf_def)

lemma relayTo_fold_queue:
  "m_type msg = SendMessage \<Longrightarrow>
   queueOf (fst (fold (relayTo isOpen conns msg packet u) ms (q, out))) m
   = queueOf q m @ (if m \<noteq> u \<and> liveSock isOpen conns m = None
                    then replicate (count_list ms m) packet else [])"
proof (induction ms arbitrary: q out)
  case Nil
  then show ?case by simp
next
  case (Cons x xs)
  show ?case
  proof (cases "x = u")
    case True
    then have "fold (relayTo isOpen conns msg packet u) (x # xs) (q, out)
               = fold (relayTo isOpen conns msg packet u) xs (q, out)"
      by (simp add: relayTo_def)
    then show ?thesis using True Cons.IH[OF Cons.prems, of q out] by simp
  next
    case False
    show ?thesis
    proof (cases "liveSock isOpen conns x")
      case None
      define q' where "q' = q(x \<mapsto> queueOf q x @ [packet])"
      have step: "fold (relayTo isOpen conns msg packet u) (x # xs) (q, out)
               = fold (relayTo isOpen conns msg packet u) xs (q', out)"
        using False None Cons.prems by (simp add: relayTo_def q'_def)
      have ih: "queueOf (fst (fold (relayTo isOpen conns msg packet u) xs (q', out))) m
                = queueOf q' m @ (if m \<noteq> u \<and> liveSock isOpen conns m = None
                                  then replicate (count_list xs m) packet else [])"
        using Cons.IH[OF Cons.prems] .
      have q'm: "queueOf q' m = (if m = x then queueOf q x @ [packet] else queueOf q m)"
        by (simp add: q'_def queueOf_upd)
      show ?thesis unfolding step ih q'm using False None by auto
    next
      case (Some s)
      have "fold (relayTo isOpen conns msg packet u) (x # xs) (q, out)
               = fold (relayTo isOpen conns msg packet u) xs (q, out @ [(s, FPacket packet)])"
        using False Some by (simp add: relayTo_def)
      then show ?thesis
        using False Some Cons.IH[OF Cons.prems, of q "out @ [(s, FPacket packet)]"]
        by auto
    qed
  qed
qed

text \<open>
  The file-storage server keeps one queue per recipient: a text message relayed to a vault
  is appended to the queue of each member who is neither the sender nor live, once per
  occurrence in the member list, whatever happens to the other members.
\<close>

lemma relay_message_queued:
  assumes "f_vaults st (m_vaultId msg) = Some v" and "m_type msg = SendMessage"
    and "u \<noteq> []" and "m \<in> set (members v)" and "m \<noteq> u"
    and "liveSock isOpen (f_connections st) m = None"
  shows "queueOf (f_messages (fst (handleRelay isOpen now ws msg (Some u) st))) m
         = queueOf (f_messages st) m
           @ replicate (count_list (members v) m)
               \<lparr>p_type = SendMessage, p_vaultId = m_vaultId msg, p_body = m_body msg,
                p_from = u, p_ts = now\<rparr>"
proof -
  let ?p = "\<lparr>p_type = m_type msg, p_vaultId = m_vaultId msg, p_body = m_body msg,
             p_from = u, p_ts = now\<rparr>"
  from relayTo_fold_queue[OF assms(2), of isOpen "f_connections st" ?p u "members v" "f_messages st" "[]" m]
  have "queueOf (fst (fold (relayTo isOpen (f_connections st) msg ?p u) (members v) (f_messages st, []))) m
        = queueOf (f_messages st) m @ replicate (count_list (members v) m) ?p"
    using assms(5,6) by simp
  moreover have "f_messages (fst (handleRelay isOpen now ws msg (Some u) st))
        = fst (fold (relayTo isOpen (f_connections st) msg ?p u) (members v) (f_messages st, []))"
    using assms(1,3) by (simp add: handleRelay_def Let_def split: prod.splits)
  ultimately show ?thesis using assms(2) by simp
qed

text \<open>
  C2: every member who is offline at send time receives the envelope on the next identify,
  also when another member was forwarded it live, because delivery is recorded per
  recipient. The better-sqlite3 server breaks this: \<open>delivered\<close> is one column of the message
  row. In the run below A sends to the vault of A, B and C while B is connected and C is
  not; the forward to B marks the row delivered, and C's next identify is answered with
  the acknowledgement alone.
\<close>

theorem C2_delivered_flag_is_per_message:
  "getVaultMembers_S s_group ''V'' = [''A'', ''B'', ''C'']
   \<and> s_connections s_group ''C'' = None
   \<and> snd (on_send_S (\<lambda>_. True) ''id1'' 1 ''V'' ''ct1'' ''A'' 10 s_group)
       = [(2, SMessage ''V'' ''ct1'' ''A'' ''id1'' 10), (1, SSendAck)]
   \<and> map row_delivered
         (s_messages (fst (on_send_S (\<lambda>_. True) ''id1'' 1 ''V'' ''ct1'' ''A'' 10 s_group))) = [True]
   \<and> snd (on_identify_S 3 ''C'' (fst (on_send_S (\<lambda>_. True) ''id1'' 1 ''V'' ''ct1'' ''A'' 10 s_group)))
       = [(3, SIdentifyAck ''C'')]"
  by (simp add: s_group_def s_defs s_send_defs on_identify_S_def getUndeliveredMessagesForUser_def)

subsection \<open>Joining twice\<close>

text \<open>The file-storage server looks for the member first: a rejoin changes nothing and is acknowledged.\<close>

lemma rejoin_F:
  "f_vaults st vId = Some v \<Longrightarrow> u \<in> set (members v) \<Longrightarrow> u \<noteq> [] \<Longrightarrow>
   fst (handleJoinVault isOpen ws vId isPrivate (Some u) st) = st
   \<and> hd (snd (handleJoinVault isOpen ws vId isPrivate (Some u) st))
       = (ws, FVaultJoined vId (filter (\<lambda>m. m \<noteq> u) (members v)) (vtype v = Private))"
  by (simp add: handleJoinVault_def Let_def map_upd_triv)

text \<open>
  C5: a second join of a member leaves the membership as it is, adds no duplicate record
  and produces no error, also in a private vault with two members. The better-sqlite3
  server counts the members before it looks at the joiner: A, a member of the full private
  vault V, joins again and is sent the error frame. The sqlite3 server inserts into a table
  without a key: the second join of U stores the row a second time.
\<close>

theorem C5_rejoin_is_refused_or_duplicated:
  "(''V'', ''A'') \<in> set (s_vault_members s_joined)
   \<and> getVaultMemberCount s_joined ''V'' = 2
   \<and> snd (on_join_vault_S 1 ''V'' True ''A'' s_joined)
       = [(1, SError ''Private vault already has 2 members.'')]
   \<and> a_vaultMembers (fst (on_join_vault_A (\<lambda>_. True) 1 ''V''
        (fst (on_join_vault_A (\<lambda>_. True) 1 ''V'' a_identified))))
       = [(''V'', ''U''), (''V'', ''U'')]"
  by (simp add: s_joined_def a_identified_def s_defs a_defs)

subsection \<open>The acknowledgement of a send\<close>

lemma m_conn_addToQueue: "m_connections (addToQueue m x st) = m_connections st"
  by (simp add: addToQueue_def)

lemma sendTo_M_fold:
  "m_connections (fst (fold (sendTo_M isOpen u md) ms (st, out, d))) = m_connections st
   \<and> fst (snd (fold (sendTo_M isOpen u md) ms (st, out, d)))
       = out @ map (\<lambda>s. (s, MMessage md))
                   (List.map_filter (\<lambda>m. if m = u then None else liveSock isOpen (m_connections st) m) ms)
   \<and> snd (snd (fold (sendTo_M isOpen u md) ms (st, out, d)))
       = (d \<or> List.map_filter (\<lambda>m. if m = u then None else liveSock isOpen (m_connections st) m) ms \<noteq> [])"
proof (induction ms arbitrary: st out d)
  case Nil
  then show ?case by simp
next
  case (Cons m ms)
  show ?case
  proof (cases "m = u")
    case True
    then have "fold (sendTo_M isOpen u md) (m # ms) (st, out, d)
               = fold (sendTo_M isOpen u md) ms (st, out, d)"
      by (simp add: sendTo_M_def)
    then show ?thesis using True Cons.IH[of st out d] by simp
  next
    case False
    show ?thesis
    proof (cases "liveSock isOpen (m_connections st) m")
      case None
      note ih = Cons.IH[of "addToQueue m md st" out d, unfolded m_conn_addToQueue]
      have "fold (sendTo_M isOpen u md) (m # ms) (st, out, d)
               = fold (sendTo_M isOpen u md) ms (addToQueue m md st, out, d)"
        using False None by (simp add: sendTo_M_def)
      then show ?thesis using False None ih by simp
    next
      case (Some s)
      have "fold (sendTo_M isOpen u md) (m # ms) (st, out, d)
               = fold (sendTo_M isOpen u md) ms (st, out @ [(s, MMessage md)], True)"
        using False Some by (simp add: sendTo_M_def)
      then show ?thesis using False Some Cons.IH[of st "out @ [(s, MMessage md)]" True]
        by simp
    qed
  qed
qed

lemma send_M_ack:
  assumes "m_currentUserId st ws = Some u" "u \<noteq> []"
  shows "snd (on_send_M isOpen msgId now ws vaultId blob msgFrom msgTs st)
     = map (\<lambda>s. (s, MMessage \<lparr>q_vaultId = vaultId, q_blob = blob, q_from = orElse_str msgFrom u,
                               q_id = msgId, q_ts = orElse_int msgTs now\<rparr>))
           (List.map_filter (\<lambda>m. if m = u then None else liveSock isOpen (m_connections st) m)
                            (getVaultMembers_M st vaultId))
       @ [(ws, MSendAck msgId
             (List.map_filter (\<lambda>m. if m = u then None else liveSock isOpen (m_connections st) m)
                              (getVaultMembers_M st vaultId) \<noteq> []))]"
proof -
  let ?md = "\<lparr>q_vaultId = vaultId, q_blob = blob, q_from = orElse_str msgFrom u,
              q_id = msgId, q_ts = orElse_int msgTs now\<rparr>"
  obtain st1 out d where f:
    "fold (sendTo_M isOpen u ?md) (getVaultMembers_M st vaultId) (st, [], False) = (st1, out, d)"
    by (metis prod_cases3)
  from sendTo_M_fold[of isOpen u ?md "getVaultMembers_M st vaultId" st "[]" False] f
  show ?thesis using assms by (simp add: on_send_M_def Let_def)
qed

lemma relayTo_fold_frames:
  "snd (fold (relayTo isOpen conns msg packet u) ms (q, out))
   = out @ map (\<lambda>s. (s, FPacket packet))
               (List.map_filter (\<lambda>m. if m = u then None else liveSock isOpen conns m) ms)"
proof (induction ms arbitrary: q out)
  case Nil
  then show ?case by simp
next
  case (Cons x xs)
  show ?case
  proof (cases "x = u")
    case True
    then have "fold (relayTo isOpen conns msg packet u) (x # xs) (q, out)
               = fold (relayTo isOpen conns msg packet u) xs (q, out)"
      by (simp add: relayTo_def)
    then show ?thesis using True Cons.IH[of q out] by simp
  next
    case False
    show ?thesis
    proof (cases "liveSock isOpen conns x")
      case None
      define q' where
        "q' = (if m_type msg = SendMessage then q(x \<mapsto> queueOf q x @ [packet]) else q)"
      have "fold (relayTo isOpen conns msg packet u) (x # xs) (q, out)
               = fold (relayTo isOpen conns msg packet u) xs (q', out)"
        using False None by (simp add: relayTo_def q'_def)
      then show ?thesis using False None Cons.IH[of q' out] by simp
    next
      case (Some s)
      have "fold (relayTo isOpen conns msg packet u) (x # xs) (q, out)
               = fold (relayTo isOpen conns msg packet u) xs (q, out @ [(s, FPacket packet)])"
        using False Some by (simp add: relayTo_def)
      then show ?thesis using False Some Cons.IH[of q "out @ [(s, FPacket packet)]"]
        by simp
    qed
  qed
qed

lemma relay_F_frames:
  assumes "f_vaults st (m_vaultId msg) = Some v" "u \<noteq> []"
  shows "snd (handleRelay isOpen now ws msg (Some u) st)
         = map (\<lambda>s. (s, FPacket \<lparr>p_type = m_type msg, p_vaultId = m_vaultId msg,
                                  p_body = m_body msg, p_from = u, p_ts = now\<rparr>))
               (List.map_filter (\<lambda>m. if m = u then None else liveSock isOpen (f_connections st) m)
                                (members v))"
proof -
  let ?p = "\<lparr>p_type = m_type msg, p_vaultId = m_vaultId msg, p_body = m_body msg,
             p_from = u, p_ts = now\<rparr>"
  have "snd (handleRelay isOpen now ws msg (Some u) st)
        = snd (fold (relayTo isOpen (f_connections st) msg ?p u) (members v) (f_messages st, []))"
    using assms by (simp add: handleRelay_def Let_def split: prod.splits)
  then show ?thesis
    using relayTo_fold_frames[of isOpen "f_connections st" msg ?p u "members v" "f_messages st" "[]"]
    by simp
qed

lemma send_S_last:
  "newId \<notin> set (map row_id (s_messages st)) \<Longrightarrow>
   last (snd (on_send_S isOpen newId ws vaultId blob src ts st)) = (ws, SSendAck)"
  by (simp add: on_send_S_def split: prod.splits)

text \<open>
  C8 (amended). On the in-memory server every send from an identified socket is answered
  with a \<open>send-ack\<close> that carries the message id the server generated and a boolean
  \<open>delivered\<close>, true exactly when at least one member other than the sending user was
  forwarded the envelope live; the number of live forwards is not reported. The
  better-sqlite3 server ends a send with a \<open>send-ack\<close> that has no fields. The file-storage
  server writes the packet to the live members and nothing to the sender.
\<close>

theorem C8_send_acknowledgement:
  "(m_currentUserId mst ws = Some u \<and> u \<noteq> []
      \<longrightarrow> snd (on_send_M isOpen msgId now ws vaultId blob msgFrom msgTs mst)
          = map (\<lambda>s. (s, MMessage \<lparr>q_vaultId = vaultId, q_blob = blob,
                                    q_from = orElse_str msgFrom u, q_id = msgId,
                                    q_ts = orElse_int msgTs now\<rparr>))
                (List.map_filter (\<lambda>m. if m = u then None else liveSock isOpen (m_connections mst) m)
                                 (getVaultMembers_M mst vaultId))
            @ [(ws, MSendAck msgId
                 (List.map_filter (\<lambda>m. if m = u then None else liveSock isOpen (m_connections mst) m)
                                  (getVaultMembers_M mst vaultId) \<noteq> []))])
   \<and> (msgId \<notin> set (map row_id (s_messages sst))
      \<longrightarrow> last (snd (on_send_S isOpen msgId ws vaultId blob src ts sst)) = (ws, SSendAck))
   \<and> (f_vaults st (m_vaultId msg) = Some v \<and> u \<noteq> []
      \<longrightarrow> snd (handleRelay isOpen now ws msg (Some u) st)
          = map (\<lambda>s. (s, FPacket \<lparr>p_type = m_type msg, p_vaultId = m_vaultId msg,
                                   p_body = m_body msg, p_from = u, p_ts = now\<rparr>))
                (List.map_filter (\<lambda>m. if m = u then None else liveSock isOpen (f_connections st) m)
                                 (members v)))"
  using send_M_ack send_S_last relay_F_frames by simp

theorem C8_send_acknowledgement_witness:
  "m_currentUserId m_joined 1 = Some ''A''
   \<and> snd (on_send_M (\<lambda>_. True) ''id1'' 98 1 ''V'' ''ct1'' None None m_joined)
       = [(2, MMessage \<lparr>q_vaultId = ''V'', q_blob = ''ct1'', q_from = ''A'', q_id = ''id1'', q_ts = 98\<rparr>),
          (1, MSendAck ''id1'' True)]
   \<and> ''id1'' \<notin> set (map row_id (s_messages s_group))
   \<and> last (snd (on_send_S (\<lambda>_. True) ''id1'' 1 ''V'' ''ct1'' ''A'' 10 s_group)) = (1, SSendAck)
   \<and> f_vaults f_joined (m_vaultId text1) = Some \<lparr>members = [''A'', ''B''], vtype = Private\<rparr>
   \<and> snd (handleRelay (\<lambda>_. True) 9 1 text1 (Some ''A'') f_joined) = [(2, FPacket (pk1\<lparr>p_ts := 9\<rparr>))]"
proof -
  have a: "m_currentUserId m_joined 1 = Some ''A''" by (simp add: m_joined_def m_defs)
  have b: "getVaultMembers_M m_joined ''V'' = [''A'', ''B'']" by (simp add: m_joined_def m_defs)
  have c: "m_connections m_joined ''B'' = Some 2" by (simp add: m_joined_def m_defs)
  have d: "''id1'' \<notin> set (map row_id (s_messages s_group))"
    by (simp add: s_group_def s_defs on_identify_S_def getUndeliveredMessagesForUser_def)
  have e: "f_vaults f_joined (m_vaultId text1) = Some \<lparr>members = [''A'', ''B''], vtype = Private\<rparr>"
    using f_joined_vault by (simp add: text1_def)
  have f: "f_connections f_joined ''B'' = Some 2" by (simp add: f_joined_def f_defs)
  note t = C8_send_acknowledgement [where mst = m_joined and ws = 1 and u = "''A''"
      and isOpen = "\<lambda>_. True" and msgId = "''id1''" and now = 98 and vaultId = "''V''"
      and blob = "''ct1''" and msgFrom = None and msgTs = None and sst = s_group
      and src = "''A''" and ts = 10 and st = f_joined and msg = text1
      and v = "\<lparr>members = [''A'', ''B''], vtype = Private\<rparr>"]
  note r = C8_send_acknowledgement [where st = f_joined and msg = text1 and u = "''A''"
      and isOpen = "\<lambda>_. True" and now = 9 and ws = 1
      and v = "\<lparr>members = [''A'', ''B''], vtype = Private\<rparr>"]
  from t a b c d
  have "snd (on_send_M (\<lambda>_. True) ''id1'' 98 1 ''V'' ''ct1'' None None m_joined)
       = [(2, MMessage \<lparr>q_vaultId = ''V'', q_blob = ''ct1'', q_from = ''A'', q_id = ''id1'', q_ts = 98\<rparr>),
          (1, MSendAck ''id1'' True)]
     \<and> last (snd (on_send_S (\<lambda>_. True) ''id1'' 1 ''V'' ''ct1'' ''A'' 10 s_group)) = (1, SSendAck)"
    by (simp add: liveSock_def orElse_str_def orElse_int_def)
  moreover from r e f
  have "snd (handleRelay (\<lambda>_. True) 9 1 text1 (Some ''A'') f_joined) = [(2, FPacket (pk1\<lparr>p_ts := 9\<rparr>))]"
    by (simp add: liveSock_def text1_def pk1_def)
  ultimately show ?thesis using a d e by simp
qed

text \<open>
  C8 as stated fails on the file-storage server: A, identified on socket 1, relays a text
  message to the existing vault V; the one frame written goes to B's socket 2, and nothing
  is returned to the sender.
\<close>

theorem C8_counterexample:
  "f_auth f_joined 1 = Some ''A''
   \<and> f_vaults f_joined ''V'' = Some \<lparr>members = [''A'', ''B''], vtype = Private\<rparr>
   \<and> snd (onMessage (\<lambda>_. True) (\<lambda>_. True) 9 1 (Relay text1) f_joined)
       = [(2, FPacket \<lparr>p_type = SendMessage, p_vaultId = ''V'', p_body = ''ct1'',
                        p_from = ''A'', p_ts = 9\<rparr>)]"
  by (simp add: f_joined_def f_defs handleRelay_def relayTo_def text1_def)

subsection \<open>The connection registry\<close>

lemma m_fold_conn:
  "m_connections (fold (\<lambda>vaultId s. addVaultMember vaultId u
                   (s\<lparr>m_userVaults := (m_userVaults s)(ws := setAdd vaultId (m_userVaults s ws))\<rparr>))
                 vaults s0) = m_connections s0
   \<and> m_currentUserId (fold (\<lambda>vaultId s. addVaultMember vaultId u
                   (s\<lparr>m_userVaults := (m_userVaults s)(ws := setAdd vaultId (m_userVaults s ws))\<rparr>))
                 vaults s0) = m_currentUserId s0"
  by (induction vaults arbitrary: s0) (simp_all add: addVaultMember_def)

lemma e_fold_user:
  "e_userId (fold (\<lambda>vId s. s\<lparr>e_vaults := (e_vaults s)
        (vId \<mapsto> (ensureVault_E vId u s)\<lparr>e_members := setAdd u (e_members (ensureVault_E vId u s))\<rparr>)\<rparr>)
      vaults s0) = e_userId s0"
  by (induction vaults arbitrary: s0) simp_all

lemma supersede_F:
  "f_auth st ws1 = Some u \<Longrightarrow> u \<noteq> [] \<Longrightarrow> ws1 \<noteq> ws2 \<Longrightarrow>
   f_connections (fst (handleIdentify ok ws2 u st)) u = Some ws2
   \<and> f_connections (onClose ws1 (fst (handleIdentify ok ws2 u st))) u = None"
  by (simp add: handleIdentify_def onClose_def Let_def split: prod.splits bool.splits)

lemma supersede_M:
  "m_currentUserId st ws1 = Some u \<Longrightarrow> u \<noteq> [] \<Longrightarrow> ws1 \<noteq> ws2 \<Longrightarrow>
   m_connections (fst (on_identify_M ok ws2 u vaults st)) u = Some ws2
   \<and> m_connections (onClose_M ws1 (fst (on_identify_M ok ws2 u vaults st))) u = None"
  by (simp add: on_identify_M_def onClose_M_def getAndClearQueue_def m_fold_conn Let_def
           split: prod.splits bool.splits)

lemma supersede_E:
  "e_userId st ws1 = Some u \<Longrightarrow> u \<noteq> [] \<Longrightarrow> ws1 \<noteq> ws2 \<Longrightarrow>
   e_connections (fst (on_identify_E ok ws2 u vaults st)) u = Some ws2
   \<and> e_connections (onClose_E ws1 (fst (on_identify_E ok ws2 u vaults st))) u = None"
  by (simp add: on_identify_E_def onClose_E_def deliverQueued_def e_fold_keeps e_fold_user Let_def
           split: prod.splits)

text \<open>
  C9 (amended). The registry is a map from user id to socket, so it holds at most one
  connection per user, and an identify for \<open>u\<close> on a new socket replaces the entry of \<open>u\<close>
  with that socket. The close handler of a socket deletes the entry of the user the socket
  identified as, without looking at the socket stored there: when \<open>u\<close> has identified on a
  new socket and the older socket of \<open>u\<close> then closes, the entry of \<open>u\<close> is removed and a
  lookup of \<open>u\<close> finds nothing until \<open>u\<close> identifies again. This holds on the file-storage,
  the in-memory and the express server.
\<close>

theorem C9_close_removes_by_user:
  "(f_auth st wso = Some u \<and> u \<noteq> [] \<and> wso \<noteq> wsn
      \<longrightarrow> f_connections (fst (handleIdentify ok wsn u st)) u = Some wsn
          \<and> f_connections (onClose wso (fst (handleIdentify ok wsn u st))) u = None)
   \<and> (m_currentUserId mst wso = Some u \<and> u \<noteq> [] \<and> wso \<noteq> wsn
      \<longrightarrow> m_connections (fst (on_identify_M ok wsn u vaults mst)) u = Some wsn
          \<and> m_connections (onClose_M wso (fst (on_identify_M ok wsn u vaults mst))) u = None)
   \<and> (e_userId est wso = Some u \<and> u \<noteq> [] \<and> wso \<noteq> wsn
      \<longrightarrow> e_connections (fst (on_identify_E ok wsn u vaults est)) u = Some wsn
          \<and> e_connections (onClose_E wso (fst (on_identify_E ok wsn u vaults est))) u = None)"
  using supersede_F[of st wso u wsn ok] supersede_M[of mst wso u wsn ok vaults]
    supersede_E[of est wso u wsn ok vaults]
  by blast

theorem C9_close_removes_by_user_witness:
  "f_auth f_joined 1 = Some ''A'' \<and> f_connections f_joined ''A'' = Some 1
   \<and> f_connections (fst (handleIdentify (\<lambda>_. True) 7 ''A'' f_joined)) ''A'' = Some 7
   \<and> f_connections (onClose 1 (fst (handleIdentify (\<lambda>_. True) 7 ''A'' f_joined))) ''A'' = None
   \<and> m_currentUserId m_joined 1 = Some ''A''
   \<and> m_connections (onClose_M 1 (fst (on_identify_M (\<lambda>_. True) 7 ''A'' [] m_joined))) ''A'' = None
   \<and> e_userId (fst (on_identify_E (\<lambda>_. True) 1 ''A'' [] e_empty)) 1 = Some ''A''
   \<and> e_connections (onClose_E 1 (fst (on_identify_E (\<lambda>_. True) 7 ''A'' []
        (fst (on_identify_E (\<lambda>_. True) 1 ''A'' [] e_empty))))) ''A'' = None"
proof -
  have a: "f_auth f_joined 1 = Some ''A'' \<and> f_connections f_joined ''A'' = Some 1"
    by (simp add: f_joined_def f_defs)
  have b: "m_currentUserId m_joined 1 = Some ''A''" by (simp add: m_joined_def m_defs)
  have c: "e_userId (fst (on_identify_E (\<lambda>_. True) 1 ''A'' [] e_empty)) 1 = Some ''A''"
    by (simp add: on_identify_E_def deliverQueued_def e_empty_def Let_def)
  from C9_close_removes_by_user [where st = f_joined and wso = 1 and wsn = 7 and u = "''A''"
      and ok = "\<lambda>_. True" and mst = m_joined and vaults = "[]"
      and est = "fst (on_identify_E (\<lambda>_. True) 1 ''A'' [] e_empty)"] a b c
  show ?thesis by simp
qed

text \<open>
  C9 as stated fails on the file-storage server: A identifies on socket 1 and then on
  socket 2, the registry holds socket 2 for A, and the close of socket 1 deletes that
  entry.
\<close>

theorem C9_counterexample:
  "f_auth f_twice 1 = Some ''A'' \<and> f_auth f_twice 2 = Some ''A''
   \<and> f_connections f_twice ''A'' = Some 2
   \<and> f_connections (onClose 1 f_twice) ''A'' = None"
  by (simp add: f_twice_def f_defs onClose_def)

subsection \<open>File chunks are relayed live only\<close>

lemma relayTo_chunk_fold:
  "m_type msg \<noteq> SendMessage \<Longrightarrow>
   fst (fold (relayTo isOpen conns msg packet u) ms (q, out)) = q"
  by (induction ms arbitrary: out) (auto simp: relayTo_def split: option.splits)

lemma relay_chunk_state:
  assumes "m_type msg = SendFileChunk"
  shows "fst (handleRelay isOpen now ws msg sender st) = st"
proof (cases sender)
  case None
  then show ?thesis by (simp add: handleRelay_def)
next
  case (Some s)
  show ?thesis
  proof (cases "f_vaults st (m_vaultId msg)")
    case None
    then show ?thesis using Some by (simp add: handleRelay_def)
  next
    case (Some v)
    let ?p = "\<lparr>p_type = m_type msg, p_vaultId = m_vaultId msg,
               p_body = m_body msg, p_from = s, p_ts = now\<rparr>"
    have "fst (fold (relayTo isOpen (f_connections st) msg ?p s) (members v) (f_messages st, []))
            = f_messages st"
      using assms by (intro relayTo_chunk_fold) simp
    then show ?thesis using Some \<open>sender = Some s\<close>
      by (auto simp: handleRelay_def Let_def split: prod.splits)
  qed
qed

lemma queueOf_del: "queueOf (q(x := None)) m = (if m = x then [] else queueOf q m)"
  by (simp add: queueOf_def)

lemma text_only_relayTo:
  "text_only q \<Longrightarrow> p_type packet = m_type msg \<Longrightarrow>
   text_only (fst (relayTo isOpen conns msg packet u m (q, out)))"
  by (auto simp: text_only_def relayTo_def queueOf_upd split: option.splits)

lemma text_only_fold:
  "text_only q \<Longrightarrow> p_type packet = m_type msg \<Longrightarrow>
   text_only (fst (fold (relayTo isOpen conns msg packet u) ms (q, out)))"
proof (induction ms arbitrary: q out)
  case Nil
  then show ?case by simp
next
  case (Cons x xs)
  obtain q' out' where r: "relayTo isOpen conns msg packet u x (q, out) = (q', out')"
    by (cases "relayTo isOpen conns msg packet u x (q, out)")
  have "text_only q'"
    using text_only_relayTo[OF Cons.prems, of isOpen conns u x out] r by simp
  then show ?case using Cons.IH[of q' out'] Cons.prems(2) r by simp
qed

lemma text_only_relay:
  assumes t: "text_only (f_messages st)"
  shows "text_only (f_messages (fst (handleRelay isOpen now ws msg sender st)))"
proof (cases sender)
  case None
  then show ?thesis using t by (simp add: handleRelay_def)
next
  case (Some u)
  show ?thesis
  proof (cases "f_vaults st (m_vaultId msg)")
    case None
    then show ?thesis using Some t by (simp add: handleRelay_def)
  next
    case (Some v)
    let ?p = "\<lparr>p_type = m_type msg, p_vaultId = m_vaultId msg,
               p_body = m_body msg, p_from = u, p_ts = now\<rparr>"
    have "text_only (fst (fold (relayTo isOpen (f_connections st) msg ?p u) (members v)
                               (f_messages st, [])))"
      using t by (intro text_only_fold) simp_all
    then show ?thesis using Some \<open>sender = Some u\<close> t
      by (auto simp: handleRelay_def Let_def split: prod.splits)
  qed
qed

lemma text_only_identify:
  "text_only (f_messages st) \<Longrightarrow> text_only (f_messages (fst (handleIdentify ok ws u st)))"
  by (auto simp: handleIdentify_def Let_def text_only_def queueOf_upd
           split: prod.splits bool.splits if_splits)

lemma messages_join:
  "f_messages (fst (handleJoinVault isOpen ws vId isPrivate user st)) = f_messages st"
  by (auto simp: handleJoinVault_def Let_def split: option.splits)

lemma messages_leave: "f_messages (handleLeaveVault vId user st) = f_messages st"
  by (auto simp: handleLeaveVault_def Let_def split: option.splits)

lemma text_only_nuke:
  "text_only (f_messages st) \<Longrightarrow> text_only (f_messages (fst (handleNuke ws user st)))"
  by (auto simp: handleNuke_def text_only_def queueOf_del split: option.splits if_splits)

lemma text_only_step:
  "text_only (f_messages st) \<Longrightarrow>
   text_only (f_messages (fst (onMessage isOpen ok now ws ev st)))"
  by (cases ev)
     (simp_all add: text_only_identify text_only_relay text_only_nuke messages_join messages_leave)

lemma text_only_close: "text_only (f_messages st) \<Longrightarrow> text_only (f_messages (onClose ws st))"
  by (simp add: onClose_def split: option.splits)

lemma text_only_run: "text_only (f_messages st) \<Longrightarrow> text_only (f_messages (f_run evs st))"
  by (induction evs st rule: f_run.induct) (simp_all add: text_only_step text_only_close)

lemma forEachSend_subset: "set (fst (forEachSend ok i ws xs)) \<subseteq> Pair ws ` set xs"
proof (induction xs arbitrary: i)
  case Nil
  then show ?case by simp
next
  case (Cons x xs)
  obtain out fin where r: "forEachSend ok (Suc i) ws xs = (out, fin)"
    by (cases "forEachSend ok (Suc i) ws xs")
  have "set out \<subseteq> Pair ws ` set xs" using Cons.IH[of "Suc i"] r by simp
  then show ?case using r by auto
qed

lemma identify_frames_text:
  assumes "text_only (f_messages st)"
  shows "\<forall>x\<in>set (snd (handleIdentify ok ws u st)).
           \<forall>p. snd x = FPacket p \<longrightarrow> p_type p = SendMessage"
proof -
  let ?q = "queueOf (f_messages st) u"
  have q: "\<forall>p\<in>set ?q. p_type p = SendMessage"
    using assms by (simp add: text_only_def)
  have "set (snd (handleIdentify ok ws u st))
        \<subseteq> set (fst (forEachSend ok 0 ws (map FPacket ?q))) \<union> {(ws, FIdentified u)}"
    by (auto simp: handleIdentify_def Let_def split: prod.splits bool.splits)
  then have "set (snd (handleIdentify ok ws u st))
        \<subseteq> Pair ws ` set (map FPacket ?q) \<union> {(ws, FIdentified u)}"
    using forEachSend_subset[of ok 0 ws "map FPacket ?q"] by blast
  then show ?thesis using q by auto
qed

text \<open>
  C10. In the file-storage server the relay of a \<open>send-file-chunk\<close> message leaves the
  whole state, and so the queue of every recipient, as it was, whoever is live; the next
  identify of any user therefore writes the frames it would have written without the
  relay. Only text messages are ever queued: when every queued packet is a
  \<open>send-message\<close>, this is still so after every run of the server, and every packet that an
  identify then drains to the socket is a \<open>send-message\<close>, never a file chunk.
\<close>

theorem C10_file_chunk_not_queued:
  "(m_type msg = SendFileChunk
      \<longrightarrow> fst (handleRelay isOpen now ws msg sender st) = st
          \<and> (\<forall>m. f_messages (fst (handleRelay isOpen now ws msg sender st)) m = f_messages st m)
          \<and> handleIdentify ok ws' u (fst (handleRelay isOpen now ws msg sender st))
              = handleIdentify ok ws' u st)
   \<and> (text_only (f_messages st)
      \<longrightarrow> text_only (f_messages (f_run evs st))
          \<and> (\<forall>x\<in>set (snd (handleIdentify ok ws' u (f_run evs st))).
                \<forall>p. snd x = FPacket p \<longrightarrow> p_type p = SendMessage))"
proof (intro conjI impI)
  assume c: "m_type msg = SendFileChunk"
  show "fst (handleRelay isOpen now ws msg sender st) = st"
    using relay_chunk_state[OF c] .
  then show "\<forall>m. f_messages (fst (handleRelay isOpen now ws msg sender st)) m = f_messages st m"
    by simp
  show "handleIdentify ok ws' u (fst (handleRelay isOpen now ws msg sender st))
          = handleIdentify ok ws' u st"
    using relay_chunk_state[OF c] by simp
next
  assume t: "text_only (f_messages st)"
  show r: "text_only (f_messages (f_run evs st))" using t by (rule text_only_run)
  show "\<forall>x\<in>set (snd (handleIdentify ok ws' u (f_run evs st))).
          \<forall>p. snd x = FPacket p \<longrightarrow> p_type p = SendMessage"
    using r by (rule identify_frames_text)
qed

theorem C10_file_chunk_not_queued_witness:
  "m_type chunk = SendFileChunk
   \<and> f_connections f_joined ''B'' = Some 2
   \<and> fst (handleRelay (\<lambda>s. s \<noteq> 2) 9 1 chunk (Some ''A'') f_joined) = f_joined
   \<and> handleIdentify (\<lambda>_. True) 4 ''B'' (fst (handleRelay (\<lambda>s. s \<noteq> 2) 9 1 chunk (Some ''A'') f_joined))
       = handleIdentify (\<lambda>_. True) 4 ''B'' f_joined
   \<and> text_only (f_messages f_empty)
   \<and> text_only (f_messages f_chunked)
   \<and> snd (handleIdentify (\<lambda>_. True) 4 ''B'' f_chunked)
       = [(4, FPacket pk1), (4, FIdentified ''B'')]"
proof -
  have h: "m_type chunk = SendFileChunk" by (simp add: chunk_def)
  have b: "f_connections f_joined ''B'' = Some 2" by (simp add: f_joined_def f_defs)
  have e: "text_only (f_messages f_empty)" by (simp add: text_only_def f_empty_def queueOf_def)
  have q: "queueOf (f_messages f_chunked) ''B'' = [pk1]"
    by (simp add: f_chunked_def f_joined_def f_defs onClose_def handleRelay_def relayTo_def
                  text1_def chunk_def pk1_def)
  note r = C10_file_chunk_not_queued [where msg = chunk and isOpen = "\<lambda>s. s \<noteq> 2" and now = 9
      and ws = 1 and sender = "Some ''A''" and st = f_joined and ok = "\<lambda>_. True" and ws' = 4
      and u = "''B''"]
  note t = C10_file_chunk_not_queued [where st = f_empty
      and evs = "[(1, msg_at 1 (Identify ''A'')), (1, msg_at 2 (JoinVault ''V'' True)),
                  (2, msg_at 3 (Identify ''B'')), (2, msg_at 4 (JoinVault ''V'' True)),
                  (3, msg_at 5 (Identify ''C''))]"]
  note t' = C10_file_chunk_not_queued [where st = f_joined
      and evs = "[(2, Closed), (1, msg_at 6 (Relay text1)), (1, msg_at 7 (Relay chunk))]"]
  from t e have j: "text_only (f_messages f_joined)" by (simp add: f_joined_def)
  from r h have "fst (handleRelay (\<lambda>s. s \<noteq> 2) 9 1 chunk (Some ''A'') f_joined) = f_joined
    \<and> handleIdentify (\<lambda>_. True) 4 ''B'' (fst (handleRelay (\<lambda>s. s \<noteq> 2) 9 1 chunk (Some ''A'') f_joined))
       = handleIdentify (\<lambda>_. True) 4 ''B'' f_joined" by simp
  moreover from t' j have "text_only (f_messages f_chunked)"
    by (simp add: f_chunked_def)
  moreover have "snd (handleIdentify (\<lambda>_. True) 4 ''B'' f_chunked)
       = [(4, FPacket pk1), (4, FIdentified ''B'')]"
    using identify_complete(2)[OF q, of "\<lambda>_. True" 4] by simp
  ultimately show ?thesis using h b e by simp
qed

end
